theory Spec2Isabelle
  imports Complex_Main "HOL-Library.Multiset"
begin

section \<open>Values thrown by the program\<close>

text \<open>
  A thrown value is either an \<open>Error\<close> instance carrying its message (this covers the
  built-in \<open>TypeError\<close>, which is an \<open>Error\<close> too) or some other value. The two handlers
  of the program only distinguish these cases (\<open>error instanceof Error\<close>).
  A computation that may throw returns \<open>thrown + 'a\<close>, with \<open>Inl\<close> for the throw.
\<close>

datatype thrown = Error string | NonError

section \<open>Vector math (embeddings.ts)\<close>

text \<open>
  JavaScript numbers are modelled as reals: the comparisons and the control flow of the
  program are kept. What IEEE doubles add is not represented: rounding, overflow to
  \<open>Infinity\<close>, underflow to 0 and \<open>NaN\<close>. For the vector \<open>(1e200, 0)\<close> against itself the
  code returns \<open>NaN\<close> (the squares overflow) and for \<open>(1e-200, 0)\<close> it returns 0 (the
  squares underflow), where the model below gives 1 in both cases. The properties proved of
  scores concern which anchor is selected and which thresholds are passed, for scores as
  the model computes them.
\<close>

type_synonym vec = "real list"

text \<open>\<open>xs.reduce((acc, x, i) => f(acc, x, i), init)\<close>: a left fold that also passes the index.\<close>

definition reduce_idx :: "('b \<Rightarrow> 'a \<Rightarrow> nat \<Rightarrow> 'b) \<Rightarrow> 'b \<Rightarrow> 'a list \<Rightarrow> 'b" where
  "reduce_idx f init xs = foldl (\<lambda>acc (x, i). f acc x i) init (zip xs [0..<length xs])"

text \<open>
  \<open>cosineSimilarity\<close>. The read \<open>vecB[i]\<close> is only reached when both lengths agree, so
  the index is in range there.
\<close>

definition cosineSimilarity :: "vec \<Rightarrow> vec \<Rightarrow> thrown + real" where
  "cosineSimilarity vecA vecB =
     (if length vecA \<noteq> length vecB then Inl (Error ''Vectors must have the same length'')
      else
        let dotProduct = reduce_idx (\<lambda>sum a i. sum + a * vecB ! i) 0 vecA;
            magnitudeA = sqrt (foldl (\<lambda>sum a. sum + a * a) 0 vecA);
            magnitudeB = sqrt (foldl (\<lambda>sum b. sum + b * b) 0 vecB)
        in if magnitudeA = 0 \<or> magnitudeB = 0 then Inr 0
           else Inr (dotProduct / (magnitudeA * magnitudeB)))"

text \<open>The mathematical notions the specification uses: dot product and Euclidean norm.\<close>

definition dot :: "vec \<Rightarrow> vec \<Rightarrow> real" where
  "dot a b = (\<Sum>i<length a. a ! i * b ! i)"

definition magnitude :: "vec \<Rightarrow> real" where
  "magnitude a = sqrt (\<Sum>i<length a. (a ! i)\<^sup>2)"

section \<open>Label definitions and anchor embeddings (embeddings.ts)\<close>

record LabelDefinition =
  ld_category :: string
  ld_labels :: "string list"

record LabelEmbedding =
  le_label :: string
  le_embedding :: vec

record CategoryEmbeddings =
  ce_category :: string
  ce_embeddings :: "LabelEmbedding list"

definition LABEL_DEFINITIONS :: "LabelDefinition list" where
  "LABEL_DEFINITIONS =
    [\<lparr>ld_category = ''products'',
      ld_labels =
       [''D1 Cloudflare database SQL storage querying'',
        ''KV Workers key-value store caching'',
        ''AI Workers machine learning inference models'',
        ''R2 object storage buckets files'',
        ''Workflows orchestration stateful functions'',
        ''DDoS protection security mitigation'']\<rparr>,
     \<lparr>ld_category = ''polarity'',
      ld_labels =
       [''positive satisfied excellent working well happy pleased'',
        ''neutral okay fine average acceptable functional'',
        ''negative frustrated broken failing disappointed angry'']\<rparr>,
     \<lparr>ld_category = ''urgency'',
      ld_labels =
       [''critical urgent blocking production emergency immediate down'',
        ''high priority important impacting significant'',
        ''medium normal standard routine moderate'',
        ''low minor casual suggestion nice-to-have future'']\<rparr>,
     \<lparr>ld_category = ''feedbackType'',
      ld_labels =
       [''bug error failure broken crash exception not working'',
        ''feature_request enhancement new capability need want'',
        ''documentation help guide tutorial unclear confusing'',
        ''performance slow latency timeout speed optimization'',
        ''pricing cost billing expensive tier limit quota'']\<rparr>,
     \<lparr>ld_category = ''churnRisk'',
      ld_labels =
       [''high risk leaving switching competitor alternative canceling frustrated quitting'',
        ''medium risk neutral evaluating considering exploring options unsure'',
        ''low risk satisfied staying committed continuing happy loyal'']\<rparr>]"

text \<open>
  The embedding model behind \<open>ai.run('@cf/baai/bge-base-en-v1.5', {text: texts})\<close> is an
  external service. Its answer to a request may depend on the request and on how many
  requests were made before, and is either a throw or the \<open>data\<close> array of the response,
  whose entries are vectors or missing (\<open>undefined\<close>). The requests made so far are kept
  in a log, in order.
\<close>

type_synonym Ai = "nat \<Rightarrow> string list \<Rightarrow> thrown + vec option list"

type_synonym ai_log = "string list list"

text \<open>\<open>xs[i]\<close> on a JavaScript array: \<open>undefined\<close> beyond the end.\<close>

definition js_index :: "'a option list \<Rightarrow> nat \<Rightarrow> 'a option" where
  "js_index xs i = (if i < length xs then xs ! i else None)"

text \<open>
  The body of \<open>labelDef.labels.map((label, index) => ({label, embedding:
  Array.from(embeddingData[index])}))\<close>: \<open>Array.from(undefined)\<close> throws a \<open>TypeError\<close>.
\<close>

fun bind_labels :: "string list \<Rightarrow> nat \<Rightarrow> vec option list \<Rightarrow> thrown + LabelEmbedding list" where
  "bind_labels [] index embeddingData = Inr []"
| "bind_labels (label # rest) index embeddingData =
     (case js_index embeddingData index of
        None \<Rightarrow> Inl (Error ''undefined is not iterable'')
      | Some v \<Rightarrow>
          (case bind_labels rest (Suc index) embeddingData of
             Inl error \<Rightarrow> Inl error
           | Inr embeddings \<Rightarrow> Inr (\<lparr>le_label = label, le_embedding = v\<rparr> # embeddings)))"

text \<open>
  The loop of \<open>precomputeLabelEmbeddings\<close> over the label definitions that are left, with
  the \<open>categoryEmbeddings\<close> built so far. The \<open>catch\<close> block logs and rethrows the same
  error.
\<close>

fun precompute_loop ::
  "Ai \<Rightarrow> LabelDefinition list \<Rightarrow> CategoryEmbeddings list \<Rightarrow> ai_log
     \<Rightarrow> (thrown + CategoryEmbeddings list) \<times> ai_log" where
  "precompute_loop ai [] categoryEmbeddings calls = (Inr categoryEmbeddings, calls)"
| "precompute_loop ai (labelDef # rest) categoryEmbeddings calls =
     (case ai (length calls) (ld_labels labelDef) of
        Inl error \<Rightarrow> (Inl error, calls @ [ld_labels labelDef])
      | Inr embeddingData \<Rightarrow>
          (case bind_labels (ld_labels labelDef) 0 embeddingData of
             Inl error \<Rightarrow> (Inl error, calls @ [ld_labels labelDef])
           | Inr embeddings \<Rightarrow>
               precompute_loop ai rest
                 (categoryEmbeddings @
                    [\<lparr>ce_category = ld_category labelDef, ce_embeddings = embeddings\<rparr>])
                 (calls @ [ld_labels labelDef])))"

definition precomputeLabelEmbeddings ::
  "Ai \<Rightarrow> ai_log \<Rightarrow> (thrown + CategoryEmbeddings list) \<times> ai_log" where
  "precomputeLabelEmbeddings ai calls = precompute_loop ai LABEL_DEFINITIONS [] calls"

text \<open>\<open>extractLabelName\<close>: \<open>fullLabel.split(' ')[0]\<close>, the text before the first space.\<close>

definition extractLabelName :: "string \<Rightarrow> string" where
  "extractLabelName fullLabel = takeWhile (\<lambda>c. c \<noteq> CHR '' '') fullLabel"



section \<open>Scoring one category (batchClassifier.ts and classifier.ts)\<close>

record ClassificationResult =
  cr_category :: string
  cr_label :: string
  cr_confidence :: real

text \<open>The objects \<open>{label, score}\<close> of the \<open>similarities\<close> array.\<close>

record Similarity =
  sim_label :: string
  sim_score :: real

text \<open>\<open>xs.map(f)\<close> where \<open>f\<close> may throw: the first throw leaves the map.\<close>

fun map_throwing :: "('a \<Rightarrow> thrown + 'b) \<Rightarrow> 'a list \<Rightarrow> thrown + 'b list" where
  "map_throwing f [] = Inr []"
| "map_throwing f (x # xs) =
     (case f x of
        Inl error \<Rightarrow> Inl error
      | Inr y \<Rightarrow> (case map_throwing f xs of Inl error \<Rightarrow> Inl error | Inr ys \<Rightarrow> Inr (y # ys)))"

definition similarities_of :: "vec \<Rightarrow> LabelEmbedding list \<Rightarrow> thrown + Similarity list" where
  "similarities_of feedbackEmbedding embeddings =
     map_throwing
       (\<lambda>labelEmbed.
          case cosineSimilarity feedbackEmbedding (le_embedding labelEmbed) of
            Inl error \<Rightarrow> Inl error
          | Inr s \<Rightarrow> Inr \<lparr>sim_label = le_label labelEmbed, sim_score = s\<rparr>)
       embeddings"

text \<open>\<open>xs.reduce(f)\<close> without an initial value throws a \<open>TypeError\<close> on an empty array.\<close>

definition reduce1 :: "('a \<Rightarrow> 'a \<Rightarrow> 'a) \<Rightarrow> 'a list \<Rightarrow> thrown + 'a" where
  "reduce1 f xs =
     (case xs of
        [] \<Rightarrow> Inl (Error ''Reduce of empty array with no initial value'')
      | x # rest \<Rightarrow> Inr (foldl f x rest))"

text \<open>\<open>similarities.reduce((max, curr) => (curr.score > max.score ? curr : max))\<close>.\<close>

definition bestMatch_of :: "Similarity list \<Rightarrow> thrown + Similarity" where
  "bestMatch_of similarities =
     reduce1 (\<lambda>mx curr. if sim_score curr > sim_score mx then curr else mx) similarities"

section \<open>The storage layer\<close>

text \<open>A row of the \<open>classifications\<close> table (schema.sql); \<open>None\<close> is SQL \<open>NULL\<close>.\<close>

record classification_row =
  feedback_id :: int
  sentiment :: "string option"
  sentiment_confidence :: "real option"
  urgency :: "string option"
  urgency_confidence :: "real option"
  product_detected :: "string option"
  product_confidence :: "real option"
  feedback_type :: "string option"
  feedback_type_confidence :: "real option"
  churn_risk :: "string option"

text \<open>
  The database holds the rows written so far. A write can be rejected (a constraint of the
  schema, a failure of the service); whether it is depends on the stored rows and on the
  rows to write, through \<open>rejects\<close>. A rejected write throws and stores nothing.
\<close>

record D1Database =
  rows :: "classification_row list"
  rejects :: "classification_row list \<Rightarrow> classification_row list \<Rightarrow> thrown option"

text \<open>\<open>db.batch(statements)\<close> for a list of \<open>INSERT INTO classifications\<close> statements.\<close>

definition db_batch :: "D1Database \<Rightarrow> classification_row list \<Rightarrow> thrown + D1Database" where
  "db_batch db batch =
     (case rejects db (rows db) batch of
        Some error \<Rightarrow> Inl error
      | None \<Rightarrow> Inr (db\<lparr>rows := rows db @ batch\<rparr>))"

text \<open>\<open>x || null\<close> on a string that may be \<open>undefined\<close>, and on a number that may be.\<close>

definition or_null_string :: "string option \<Rightarrow> string option" where
  "or_null_string x = (case x of None \<Rightarrow> None | Some s \<Rightarrow> if s = [] then None else Some s)"

definition or_null_number :: "real option \<Rightarrow> real option" where
  "or_null_number x = (case x of None \<Rightarrow> None | Some n \<Rightarrow> if n = 0 then None else Some n)"

section \<open>The bulk classification job (batchClassifier.ts)\<close>

record FeedbackItem =
  fb_id :: int
  fb_content :: string

record BatchResult =
  br_id :: int
  br_classifications :: "string \<rightharpoonup> ClassificationResult"

definition chunkSize :: nat where
  "chunkSize = 100"

definition saveChunkSize :: nat where
  "saveChunkSize = 50"

text \<open>\<open>xs.slice(i, j)\<close> for \<open>0 \<le> i \<le> j\<close>.\<close>

definition slice :: "'a list \<Rightarrow> nat \<Rightarrow> nat \<Rightarrow> 'a list" where
  "slice xs i j = take (j - i) (drop i xs)"

text \<open>
  Step 2, \<open>for (let i = 0; i < feedbackItems.length; i += chunkSize)\<close>: one embedding
  request per chunk, the answers pushed onto \<open>allEmbeddings\<close>. A throw of the service is
  not caught and leaves the job.
\<close>

function embed_chunks ::
  "Ai \<Rightarrow> FeedbackItem list \<Rightarrow> nat \<Rightarrow> vec option list \<Rightarrow> ai_log
     \<Rightarrow> (thrown + vec option list) \<times> ai_log" where
  "embed_chunks ai feedbackItems i allEmbeddings calls =
     (if i < length feedbackItems then
        let chunk = slice feedbackItems i (i + chunkSize);
            chunkTexts = map fb_content chunk
        in case ai (length calls) chunkTexts of
             Inl error \<Rightarrow> (Inl error, calls @ [chunkTexts])
           | Inr chunkEmbeddings \<Rightarrow>
               embed_chunks ai feedbackItems (i + chunkSize)
                 (allEmbeddings @ chunkEmbeddings) (calls @ [chunkTexts])
      else (Inr allEmbeddings, calls))"
  by pat_completeness auto
termination
  by (relation "measure (\<lambda>(ai, feedbackItems, i, allEmbeddings, calls). length feedbackItems - i)")
     (auto simp: chunkSize_def)

declare embed_chunks.simps [simp del]

text \<open>
  The loop over \<open>labelEmbeddings\<close> inside the \<open>try\<close> block of step 3: every category
  stores its best match, under its name, in \<open>classifications\<close>.
\<close>

fun classify_categories ::
  "vec \<Rightarrow> CategoryEmbeddings list \<Rightarrow> (string \<rightharpoonup> ClassificationResult)
     \<Rightarrow> thrown + (string \<rightharpoonup> ClassificationResult)" where
  "classify_categories feedbackEmbedding [] classifications = Inr classifications"
| "classify_categories feedbackEmbedding (categoryData # rest) classifications =
     (case similarities_of feedbackEmbedding (ce_embeddings categoryData) of
        Inl error \<Rightarrow> Inl error
      | Inr similarities \<Rightarrow>
          (case bestMatch_of similarities of
             Inl error \<Rightarrow> Inl error
           | Inr bestMatch \<Rightarrow>
               let label = extractLabelName (sim_label bestMatch);
                   confidence = sim_score bestMatch
               in classify_categories feedbackEmbedding rest
                    (classifications(ce_category categoryData \<mapsto>
                       \<lparr>cr_category = ce_category categoryData,
                        cr_label = label,
                        cr_confidence = confidence\<rparr>))))"

text \<open>
  Step 3, \<open>for (let i = 0; i < feedbackItems.length; i++)\<close>: an item without a vector
  is counted as failed and skipped, a throw while classifying is caught and counted as
  failed, any other item is pushed onto \<open>batchResults\<close> and counted as classified.
\<close>

function classify_loop ::
  "CategoryEmbeddings list \<Rightarrow> FeedbackItem list \<Rightarrow> vec option list \<Rightarrow> nat
     \<Rightarrow> nat \<Rightarrow> nat \<Rightarrow> BatchResult list \<Rightarrow> nat \<times> nat \<times> BatchResult list" where
  "classify_loop labelEmbeddings feedbackItems feedbackEmbeddings i classified failed batchResults =
     (if i < length feedbackItems then
        let item = feedbackItems ! i in
        case js_index feedbackEmbeddings i of
          None \<Rightarrow>
            classify_loop labelEmbeddings feedbackItems feedbackEmbeddings (i + 1)
              classified (failed + 1) batchResults
        | Some feedbackEmbedding \<Rightarrow>
            (case classify_categories feedbackEmbedding labelEmbeddings Map.empty of
               Inr classifications \<Rightarrow>
                 classify_loop labelEmbeddings feedbackItems feedbackEmbeddings (i + 1)
                   (classified + 1) failed
                   (batchResults @ [\<lparr>br_id = fb_id item, br_classifications = classifications\<rparr>])
             | Inl error \<Rightarrow>
                 classify_loop labelEmbeddings feedbackItems feedbackEmbeddings (i + 1)
                   classified (failed + 1) batchResults)
      else (classified, failed, batchResults))"
  by pat_completeness auto
termination
  by (relation "measure (\<lambda>(labelEmbeddings, feedbackItems, feedbackEmbeddings, i, classified,
        failed, batchResults). length feedbackItems - i)") auto

declare classify_loop.simps [simp del]

text \<open>The statement built for one result: the values bound to the \<open>INSERT\<close>.\<close>

definition batch_row :: "BatchResult \<Rightarrow> classification_row" where
  "batch_row res =
     (let sentiment = or_null_string (map_option cr_label (br_classifications res ''polarity''));
          sentimentConfidence =
            or_null_number (map_option cr_confidence (br_classifications res ''polarity''));
          urgency = or_null_string (map_option cr_label (br_classifications res ''urgency''));
          urgencyConfidence =
            or_null_number (map_option cr_confidence (br_classifications res ''urgency''));
          productDetected = or_null_string (map_option cr_label (br_classifications res ''products''));
          productConfidence =
            or_null_number (map_option cr_confidence (br_classifications res ''products''));
          feedbackType = or_null_string (map_option cr_label (br_classifications res ''feedbackType''));
          feedbackTypeConfidence =
            or_null_number (map_option cr_confidence (br_classifications res ''feedbackType''));
          churnRisk = or_null_string (map_option cr_label (br_classifications res ''churnRisk''))
      in \<lparr>feedback_id = br_id res,
          sentiment = sentiment, sentiment_confidence = sentimentConfidence,
          urgency = urgency, urgency_confidence = urgencyConfidence,
          product_detected = productDetected, product_confidence = productConfidence,
          feedback_type = feedbackType, feedback_type_confidence = feedbackTypeConfidence,
          churn_risk = churnRisk\<rparr>)"

text \<open>
  The save loop, \<open>for (let i = 0; i < batchResults.length; i += saveChunkSize)\<close>: a
  rejected batch throws out of the job, the batches written before it stay.
\<close>

function save_loop :: "D1Database \<Rightarrow> BatchResult list \<Rightarrow> nat \<Rightarrow> thrown option \<times> D1Database" where
  "save_loop db batchResults i =
     (if i < length batchResults then
        let chunk = slice batchResults i (i + saveChunkSize);
            batch = map batch_row chunk
        in case db_batch db batch of
             Inl error \<Rightarrow> (Some error, db)
           | Inr db' \<Rightarrow> save_loop db' batchResults (i + saveChunkSize)
      else (None, db))"
  by pat_completeness auto
termination
  by (relation "measure (\<lambda>(db, batchResults, i). length batchResults - i)")
     (auto simp: saveChunkSize_def)

declare save_loop.simps [simp del]

text \<open>The job's result \<open>{classified, failed}\<close>.\<close>

record Counts =
  classified :: nat
  failed :: nat

text \<open>
  What a run of the job leaves behind: its result (the counts, or the error it threw), the
  database and the requests made to the embedding service.
\<close>

record JobRun =
  outcome :: "thrown + Counts"
  final_db :: D1Database
  ai_calls :: ai_log

definition batchClassifyFeedback :: "FeedbackItem list \<Rightarrow> D1Database \<Rightarrow> Ai \<Rightarrow> JobRun" where
  "batchClassifyFeedback feedbackItems db ai =
     (case precomputeLabelEmbeddings ai [] of
        (Inl error, calls1) \<Rightarrow> \<lparr>outcome = Inl error, final_db = db, ai_calls = calls1\<rparr>
      | (Inr labelEmbeddings, calls1) \<Rightarrow>
          (case embed_chunks ai feedbackItems 0 [] calls1 of
             (Inl error, calls2) \<Rightarrow> \<lparr>outcome = Inl error, final_db = db, ai_calls = calls2\<rparr>
           | (Inr feedbackEmbeddings, calls2) \<Rightarrow>
               (case classify_loop labelEmbeddings feedbackItems feedbackEmbeddings 0 0 0 [] of
                  (nClassified, nFailed, batchResults) \<Rightarrow>
                    (case save_loop db batchResults 0 of
                       (Some error, db') \<Rightarrow>
                         \<lparr>outcome = Inl error, final_db = db', ai_calls = calls2\<rparr>
                     | (None, db') \<Rightarrow>
                         \<lparr>outcome = Inr \<lparr>classified = nClassified, failed = nFailed\<rparr>,
                          final_db = db', ai_calls = calls2\<rparr>))))"

section \<open>The single-item classification path (classifier.ts)\<close>

record FeedbackClassifications =
  feedbackId :: int
  classifications :: "string \<rightharpoonup> ClassificationResult"
  needsRefinement :: bool
  refinementReason :: "string option"

text \<open>The variables the loop of \<open>classifyFeedback\<close> updates.\<close>

record refinement_state =
  rs_classifications :: "string \<rightharpoonup> ClassificationResult"
  lowestConfidence :: real
  hasCriticalUrgency :: bool
  hasMixedSentiment :: bool

text \<open>\<open>s.startsWith(p)\<close>.\<close>

definition startsWith :: "string \<Rightarrow> string \<Rightarrow> bool" where
  "startsWith s p = (take (length p) s = p)"

text \<open>
  \<open>similarities.sort((a, b) => b.score - a.score)\<close>: the stable sort by descending score.
\<close>

definition sort_by_score_desc :: "Similarity list \<Rightarrow> Similarity list" where
  "sort_by_score_desc similarities = sort_key (\<lambda>s. - sim_score s) similarities"

fun classifyFeedback_loop ::
  "vec \<Rightarrow> CategoryEmbeddings list \<Rightarrow> refinement_state \<Rightarrow> thrown + refinement_state" where
  "classifyFeedback_loop feedbackEmbedding [] st = Inr st"
| "classifyFeedback_loop feedbackEmbedding (categoryData # rest) st =
     (case similarities_of feedbackEmbedding (ce_embeddings categoryData) of
        Inl error \<Rightarrow> Inl error
      | Inr similarities \<Rightarrow>
          (case bestMatch_of similarities of
             Inl error \<Rightarrow> Inl error
           | Inr bestMatch \<Rightarrow>
               let st1 = st\<lparr>rs_classifications :=
                       (rs_classifications st)(ce_category categoryData \<mapsto>
                          \<lparr>cr_category = ce_category categoryData,
                           cr_label = extractLabelName (sim_label bestMatch),
                           cr_confidence = sim_score bestMatch\<rparr>)\<rparr>;
                   st2 = (if sim_score bestMatch < lowestConfidence st1
                          then st1\<lparr>lowestConfidence := sim_score bestMatch\<rparr> else st1);
                   st3 = (if ce_category categoryData = ''urgency''
                             \<and> startsWith (sim_label bestMatch) ''critical''
                          then st2\<lparr>hasCriticalUrgency := True\<rparr> else st2);
                   st4 = (if ce_category categoryData = ''polarity'' then
                            let topTwo = slice (sort_by_score_desc similarities) 0 2
                            in if length topTwo = 2
                                  \<and> \<bar>sim_score (topTwo ! 0) - sim_score (topTwo ! 1)\<bar> < 0.15
                               then st3\<lparr>hasMixedSentiment := True\<rparr> else st3
                          else st3)
               in classifyFeedback_loop feedbackEmbedding rest st4))"

text \<open>
  The \<open>data\<close> of the response to a request with one text: an array of vectors or, as the
  code allows for, one flat vector.
\<close>

datatype embedding_data = Nested "vec list" | Flat vec

text \<open>\<open>Array.isArray(embeddingData[0]) ? embeddingData[0] : embeddingData\<close>.\<close>

fun feedbackEmbedding_of :: "embedding_data \<Rightarrow> vec" where
  "feedbackEmbedding_of (Nested (v # vs)) = v"
| "feedbackEmbedding_of (Nested []) = []"
| "feedbackEmbedding_of (Flat v) = v"

definition classifyFeedback ::
  "string \<Rightarrow> int \<Rightarrow> CategoryEmbeddings list \<Rightarrow> (string \<Rightarrow> thrown + embedding_data)
     \<Rightarrow> thrown + FeedbackClassifications" where
  "classifyFeedback feedbackText feedbackId' labelEmbeddings ai =
     (case ai feedbackText of
        Inl error \<Rightarrow> Inl error
      | Inr embeddingData \<Rightarrow>
          (case classifyFeedback_loop (feedbackEmbedding_of embeddingData) labelEmbeddings
                  \<lparr>rs_classifications = Map.empty, lowestConfidence = 1.0,
                   hasCriticalUrgency = False, hasMixedSentiment = False\<rparr> of
             Inl error \<Rightarrow> Inl error
           | Inr st \<Rightarrow>
               let needsRefinement' =
                     (lowestConfidence st < 0.65 \<or> hasCriticalUrgency st \<or> hasMixedSentiment st);
                   refinementReason' =
                     (if needsRefinement' then
                        if lowestConfidence st < 0.65 then Some ''low_confidence''
                        else if hasCriticalUrgency st then Some ''critical_urgency''
                        else if hasMixedSentiment st then Some ''mixed_sentiment''
                        else None
                      else None)
               in Inr \<lparr>feedbackId = feedbackId',
                       classifications = rs_classifications st,
                       needsRefinement = needsRefinement',
                       refinementReason = refinementReason'\<rparr>))"

text \<open>
  \<open>saveClassifications\<close>: one \<open>INSERT\<close> with the values below, executed by \<open>.run()\<close>; the
  parameter \<open>refinementNotes\<close> is not used by the body.
\<close>

definition saveClassifications ::
  "D1Database \<Rightarrow> int \<Rightarrow> (string \<rightharpoonup> ClassificationResult) \<Rightarrow> string option
     \<Rightarrow> thrown + D1Database" where
  "saveClassifications db feedbackId' classifications' refinementNotes =
     (let sentiment = or_null_string (map_option cr_label (classifications' ''polarity''));
          sentimentConfidence =
            or_null_number (map_option cr_confidence (classifications' ''polarity''));
          urgency = or_null_string (map_option cr_label (classifications' ''urgency''));
          urgencyConfidence =
            or_null_number (map_option cr_confidence (classifications' ''urgency''));
          productDetected = or_null_string (map_option cr_label (classifications' ''products''));
          productConfidence =
            or_null_number (map_option cr_confidence (classifications' ''products''));
          feedbackType = or_null_string (map_option cr_label (classifications' ''feedbackType''));
          feedbackTypeConfidence =
            or_null_number (map_option cr_confidence (classifications' ''feedbackType''));
          churnRisk = or_null_string (map_option cr_label (classifications' ''churnRisk''))
      in db_batch db
           [\<lparr>feedback_id = feedbackId',
             sentiment = sentiment, sentiment_confidence = sentimentConfidence,
             urgency = urgency, urgency_confidence = urgencyConfidence,
             product_detected = productDetected, product_confidence = productConfidence,
             feedback_type = feedbackType, feedback_type_confidence = feedbackTypeConfidence,
             churn_risk = churnRisk\<rparr>])"

section \<open>Reading urgency back (index.ts, summary.ts)\<close>

text \<open>
  The conditions of the SQL queries, in SQL's three-valued logic: a comparison with
  \<open>NULL\<close> is unknown (\<open>None\<close>), and a \<open>WHEN\<close> or \<open>WHERE\<close> condition selects only when
  it is true.
\<close>

type_synonym sql_bool = "bool option"

definition sql_eq :: "string option \<Rightarrow> string \<Rightarrow> sql_bool" where
  "sql_eq x v = map_option (\<lambda>y. y = v) x"

definition sql_gt :: "real option \<Rightarrow> real \<Rightarrow> sql_bool" where
  "sql_gt x v = map_option (\<lambda>y. y > v) x"

definition sql_le :: "real option \<Rightarrow> real \<Rightarrow> sql_bool" where
  "sql_le x v = map_option (\<lambda>y. y \<le> v) x"

definition sql_and :: "sql_bool \<Rightarrow> sql_bool \<Rightarrow> sql_bool" where
  "sql_and p q =
     (if p = Some False \<or> q = Some False then Some False
      else if p = Some True \<and> q = Some True then Some True
      else None)"

definition sql_or :: "sql_bool \<Rightarrow> sql_bool \<Rightarrow> sql_bool" where
  "sql_or p q =
     (if p = Some True \<or> q = Some True then Some True
      else if p = Some False \<and> q = Some False then Some False
      else None)"

definition sql_holds :: "sql_bool \<Rightarrow> bool" where
  "sql_holds p = (p = Some True)"

text \<open>
  The urgency column of \<open>getFeedback\<close> and \<open>getFeedbackById\<close>, computed row by row:
  \<open>CASE WHEN c.urgency = 'critical' AND c.urgency_confidence > 0.5 THEN 'critical'
  WHEN c.urgency = 'critical' THEN 'high' ELSE c.urgency END\<close>.
  The urgency distribution of \<open>getMetrics\<close> selects the same expression but groups its rows
  by the stored \<open>urgency\<close> column and counts per group; that grouped query is not modelled
  here.
\<close>

definition reported_urgency :: "classification_row \<Rightarrow> string option" where
  "reported_urgency c =
     (if sql_holds (sql_and (sql_eq (urgency c) ''critical'') (sql_gt (urgency_confidence c) 0.5))
      then Some ''critical''
      else if sql_holds (sql_eq (urgency c) ''critical'') then Some ''high''
      else urgency c)"

text \<open>The sort key of \<open>getFeedback\<close> when \<open>sort = importance\<close>.\<close>

definition importance_rank :: "classification_row \<Rightarrow> nat" where
  "importance_rank c =
     (if sql_holds (sql_and (sql_eq (urgency c) ''critical'') (sql_gt (urgency_confidence c) 0.5))
      then 3
      else if sql_holds (sql_or (sql_eq (urgency c) ''high'')
                (sql_and (sql_eq (urgency c) ''critical'') (sql_le (urgency_confidence c) 0.5)))
      then 2
      else 1)"

text \<open>
  The two urgency counts of \<open>prepareMetricsForSummary\<close>, over the classification rows that
  the join with the feedback of the window leaves:
  \<open>COUNT(*) ... WHERE urgency = 'critical' AND urgency_confidence > 0.5\<close> and
  \<open>COUNT(*) ... WHERE (urgency = 'high' OR (urgency = 'critical' AND urgency_confidence <= 0.5))\<close>.
\<close>

definition counts_as_critical :: "classification_row \<Rightarrow> bool" where
  "counts_as_critical c =
     sql_holds (sql_and (sql_eq (urgency c) ''critical'') (sql_gt (urgency_confidence c) 0.5))"

definition counts_as_high :: "classification_row \<Rightarrow> bool" where
  "counts_as_high c =
     sql_holds (sql_or (sql_eq (urgency c) ''high'')
       (sql_and (sql_eq (urgency c) ''critical'') (sql_le (urgency_confidence c) 0.5)))"

definition criticalCount_query :: "classification_row list \<Rightarrow> int" where
  "criticalCount_query joined = int (length (filter counts_as_critical joined))"

definition highCount_query :: "classification_row list \<Rightarrow> int" where
  "highCount_query joined = int (length (filter counts_as_high joined))"

section \<open>The executive summary (summary.ts)\<close>

text \<open>
  The counts and percentages of the metrics are whole numbers (results of \<open>COUNT(*)\<close>
  and of \<open>Math.round\<close>), modelled as integers.
\<close>

record Theme =
  th_theme :: string
  th_count :: int

record AggregatedMetrics =
  totalCount :: int
  positivePercent :: int
  neutralPercent :: int
  negativePercent :: int
  topThemes :: "Theme list"
  criticalCount :: int
  highCount :: int
  topProducts :: "string list"

record CriticalItem =
  ci_content :: string
  ci_source :: string
  ci_timestamp :: string

record PrioritizedMetrics =
  recent7d :: AggregatedMetrics
  recent30d :: AggregatedMetrics
  allTime :: AggregatedMetrics
  latestCriticalItems :: "CriticalItem list"

text \<open>A whole number inside a template literal: its decimal digits, with a sign.\<close>

fun digits :: "nat \<Rightarrow> string" where
  "digits n =
     (if n < 10 then [char_of (48 + n)] else digits (n div 10) @ [char_of (48 + n mod 10)])"

definition show_int :: "int \<Rightarrow> string" where
  "show_int n = (if n < 0 then CHR ''-'' # digits (nat (- n)) else digits (nat n))"

text \<open>\<open>xs.join(sep)\<close>.\<close>

fun join :: "string \<Rightarrow> string list \<Rightarrow> string" where
  "join sep [] = []"
| "join sep [x] = x"
| "join sep (x # y # ys) = x @ sep @ join sep (y # ys)"

text \<open>The cascade that picks the window the summary focuses on.\<close>

definition windowContext :: "PrioritizedMetrics \<Rightarrow> string" where
  "windowContext metrics =
     (let hasUrgent7d = criticalCount (recent7d metrics) > 0;
          hasImportan7d = highCount (recent7d metrics) \<ge> 5;
          hasCritical30d = criticalCount (recent30d metrics) \<ge> 5
      in if hasUrgent7d then
           ''FOCUS: Urgent issues from the last 7 days ('' @
             show_int (criticalCount (recent7d metrics)) @ '' critical items).''
         else if \<not> hasImportan7d then
           ''FOCUS: Issues from the last 30 days (fallback due to low 7-day volume).''
         else if \<not> hasCritical30d then
           ''FOCUS: Long-term trends and issues from the past year (fallback due to low 30-day volume).''
         else ''FOCUS: Recent 30-day performance trends.'')"

definition criticalItemsList :: "PrioritizedMetrics \<Rightarrow> string" where
  "criticalItemsList metrics =
     join ''\<newline>''
       (map (\<lambda>item. ''- ['' @ ci_source item @ ''] '' @ take 100 (ci_content item) @
                     ''... ('' @ ci_timestamp item @ '')'')
          (latestCriticalItems metrics))"

definition summaryPrompt :: "PrioritizedMetrics \<Rightarrow> string" where
  "summaryPrompt metrics =
     ''You are a product analyst. Based on aggregated customer feedback, write a concise 2-3 sentence executive summary for a product manager.\<newline>'' @
     ''    \<newline>'' @
     windowContext metrics @ ''\<newline>'' @
     ''\<newline>'' @
     ''LATEST CRITICAL FEEDBACK (Last 5 items):\<newline>'' @
     criticalItemsList metrics @ ''\<newline>'' @
     ''\<newline>'' @
     ''7-DAY METRICS:\<newline>'' @
     ''- Total: '' @ show_int (totalCount (recent7d metrics)) @ ''\<newline>'' @
     ''- Sentiment: '' @ show_int (positivePercent (recent7d metrics)) @ ''% positive, '' @
        show_int (negativePercent (recent7d metrics)) @ ''% negative\<newline>'' @
     ''- Critical Items: '' @ show_int (criticalCount (recent7d metrics)) @ ''\<newline>'' @
     ''- Top Themes: '' @
        join '', '' (map (\<lambda>t. th_theme t @ '' ('' @ show_int (th_count t) @ '')'')
                      (topThemes (recent7d metrics))) @ ''\<newline>'' @
     ''\<newline>'' @
     ''30-DAY METRICS:\<newline>'' @
     ''- Total: '' @ show_int (totalCount (recent30d metrics)) @ ''\<newline>'' @
     ''- Sentiment: '' @ show_int (positivePercent (recent30d metrics)) @ ''% positive, '' @
        show_int (negativePercent (recent30d metrics)) @ ''% negative\<newline>'' @
     ''- Critical Items: '' @ show_int (criticalCount (recent30d metrics)) @ ''\<newline>'' @
     ''\<newline>'' @
     ''ALL-TIME PRODUCTS: '' @ join '', '' (topProducts (allTime metrics)) @ ''\<newline>'' @
     ''\<newline>'' @
     ''Provide actionable insights focusing on the specified FOCUS area and the LATEST CRITICAL FEEDBACK provided above.\<newline>'' @
     ''Maximum 3 sentences. Plaintext only.''"

text \<open>
  The text model behind \<open>ai.run('@cf/meta/llama-3.1-8b-instruct', ...)\<close>: for a prompt
  it throws, or answers with an object whose \<open>response\<close> field is a text or is missing.
\<close>

type_synonym TextAi = "string \<Rightarrow> thrown + string option"

text \<open>
  \<open>generateExecutiveSummary\<close>: the call is inside \<open>try\<close>, and the \<open>catch\<close> block returns
  the text \<open>Unable to generate summary: ...\<close> with the message of the error, or
  \<open>Unknown error\<close> for a thrown value that is no \<open>Error\<close>. The result type keeps the
  possibility of a throw (\<open>Inl\<close>).
\<close>

definition generateExecutiveSummary :: "PrioritizedMetrics \<Rightarrow> TextAi \<Rightarrow> thrown + string" where
  "generateExecutiveSummary metrics ai =
     (case ai (summaryPrompt metrics) of
        Inr response \<Rightarrow>
          (case response of
             Some text \<Rightarrow> Inr (if text = [] then ''Summary generation in progress...'' else text)
           | None \<Rightarrow> Inr ''Summary generation in progress...'')
      | Inl error \<Rightarrow>
          Inr (''Unable to generate summary: '' @
                 (case error of Error message \<Rightarrow> message | NonError \<Rightarrow> ''Unknown error'')))"

text \<open>The four focus texts, under the names the specification gives them.\<close>

definition focus_7day_urgent :: "int \<Rightarrow> string" where
  "focus_7day_urgent n =
     ''FOCUS: Urgent issues from the last 7 days ('' @ show_int n @ '' critical items).''"

definition focus_30day_fallback :: string where
  "focus_30day_fallback =
     ''FOCUS: Issues from the last 30 days (fallback due to low 7-day volume).''"

definition focus_alltime_trend :: string where
  "focus_alltime_trend =
     ''FOCUS: Long-term trends and issues from the past year (fallback due to low 30-day volume).''"

definition focus_30day_performance :: string where
  "focus_30day_performance = ''FOCUS: Recent 30-day performance trends.''"

section \<open>Notions of the specification and example inputs\<close>

text \<open>
  The columns of the \<open>classifications\<close> table that hold the confidence and the label of each
  category (\<open>churnRisk\<close> has no confidence column).
\<close>

definition confidence_columns :: "(string \<times> (classification_row \<Rightarrow> real option)) list" where
  "confidence_columns =
     [(''polarity'', sentiment_confidence), (''urgency'', urgency_confidence),
      (''products'', product_confidence), (''feedbackType'', feedback_type_confidence)]"

definition label_columns :: "(string \<times> (classification_row \<Rightarrow> string option)) list" where
  "label_columns =
     [(''polarity'', sentiment), (''urgency'', urgency), (''products'', product_detected),
      (''feedbackType'', feedback_type), (''churnRisk'', churn_risk)]"

text \<open>
  A row is null-coerced for a classification map when a confidence of exactly 0 and an
  absent category both leave \<open>NULL\<close> in the confidence column, and an absent category
  leaves \<open>NULL\<close> in the label column.
\<close>

definition null_coerced :: "(string \<rightharpoonup> ClassificationResult) \<Rightarrow> classification_row \<Rightarrow> bool" where
  "null_coerced cls row =
     ((\<forall>(cat, col) \<in> set confidence_columns.
         (map_option cr_confidence (cls cat) = Some 0 \<longrightarrow> col row = None)
         \<and> (cls cat = None \<longrightarrow> col row = None))
      \<and> (\<forall>(cat, col) \<in> set label_columns. cls cat = None \<longrightarrow> col row = None))"

text \<open>
  Metrics with the given 7-day critical count, 7-day high count and 30-day critical count,
  and nothing else.
\<close>

definition example_metrics :: "int \<Rightarrow> int \<Rightarrow> int \<Rightarrow> PrioritizedMetrics" where
  "example_metrics critical7d high7d critical30d =
     (let none = \<lparr>totalCount = 0, positivePercent = 0, neutralPercent = 0, negativePercent = 0,
                  topThemes = [], criticalCount = 0, highCount = 0, topProducts = []\<rparr>
      in \<lparr>recent7d = none\<lparr>criticalCount := critical7d, highCount := high7d\<rparr>,
          recent30d = none\<lparr>criticalCount := critical30d\<rparr>,
          allTime = none,
          latestCriticalItems = []\<rparr>)"

text \<open>An empty database that accepts every write.\<close>

definition example_db :: D1Database where
  "example_db = \<lparr>rows = [], rejects = (\<lambda>stored batch. None)\<rparr>"

text \<open>
  A classification map with a polarity confidence of exactly 0, a raw \<open>critical\<close> urgency of
  confidence 0.5 and no other category.
\<close>

definition example_classifications :: "string \<rightharpoonup> ClassificationResult" where
  "example_classifications =
     [''polarity'' \<mapsto> \<lparr>cr_category = ''polarity'', cr_label = ''neutral'', cr_confidence = 0\<rparr>,
      ''urgency'' \<mapsto> \<lparr>cr_category = ''urgency'', cr_label = ''critical'', cr_confidence = 0.5\<rparr>]"

text \<open>All label texts of the label definitions.\<close>

definition all_label_texts :: "string list" where
  "all_label_texts = concat (map ld_labels LABEL_DEFINITIONS)"


text \<open>
  An embedding service that answers the five anchor requests with the vector
  \<open>(1, 0, 0, 0)\<close> for every label. In every later request an empty text gets no vector,
  the text \<open>?\<close> gets a vector of the wrong dimension and every other text gets
  \<open>(1, 1, 1, 1)\<close>, which scores exactly 0.5 against every anchor.
\<close>

definition example_ai :: Ai where
  "example_ai k texts =
     Inr (map (\<lambda>t. if k < 5 then Some [1, 0, 0, 0]
                    else if t = [] then None
                    else if t = ''?'' then Some [1, 1]
                    else Some [1, 1, 1, 1]) texts)"

text \<open>The anchors that \<open>precomputeLabelEmbeddings\<close> builds from that service.\<close>

definition example_anchors :: "CategoryEmbeddings list" where
  "example_anchors =
     map (\<lambda>d. \<lparr>ce_category = ld_category d,
                ce_embeddings = map (\<lambda>l. \<lparr>le_label = l, le_embedding = [1, 0, 0, 0]\<rparr>) (ld_labels d)\<rparr>)
       LABEL_DEFINITIONS"

text \<open>
  What step 3 makes of position \<open>j\<close>: the classification map of the item there, or nothing
  when its vector is missing or classifying it throws.
\<close>

definition classification_of ::
  "CategoryEmbeddings list \<Rightarrow> vec option list \<Rightarrow> nat \<Rightarrow> (string \<rightharpoonup> ClassificationResult) option" where
  "classification_of labelEmbeddings feedbackEmbeddings j =
     (case js_index feedbackEmbeddings j of
        None \<Rightarrow> None
      | Some v \<Rightarrow>
          (case classify_categories v labelEmbeddings Map.empty of
             Inl error \<Rightarrow> None
           | Inr cls \<Rightarrow> Some cls))"

text \<open>The positions below \<open>n\<close> that get classified, and those that do not, in order.\<close>

definition classified_positions ::
  "CategoryEmbeddings list \<Rightarrow> vec option list \<Rightarrow> nat \<Rightarrow> nat \<Rightarrow> nat list" where
  "classified_positions labelEmbeddings feedbackEmbeddings i n =
     filter (\<lambda>j. classification_of labelEmbeddings feedbackEmbeddings j \<noteq> None) [i..<n]"

definition failed_positions ::
  "CategoryEmbeddings list \<Rightarrow> vec option list \<Rightarrow> nat \<Rightarrow> nat \<Rightarrow> nat list" where
  "failed_positions labelEmbeddings feedbackEmbeddings i n =
     filter (\<lambda>j. classification_of labelEmbeddings feedbackEmbeddings j = None) [i..<n]"

text \<open>The result pushed for a classified position, and the row written for it.\<close>

definition result_at ::
  "CategoryEmbeddings list \<Rightarrow> FeedbackItem list \<Rightarrow> vec option list \<Rightarrow> nat \<Rightarrow> BatchResult" where
  "result_at labelEmbeddings feedbackItems feedbackEmbeddings j =
     \<lparr>br_id = fb_id (feedbackItems ! j),
      br_classifications = the (classification_of labelEmbeddings feedbackEmbeddings j)\<rparr>"

text \<open>
  Three items: one with a text, one with an empty text (the example service returns no
  vector for it) and one with the text \<open>?\<close> (a vector of the wrong dimension).
\<close>

definition example_items :: "FeedbackItem list" where
  "example_items =
     [\<lparr>fb_id = 11, fb_content = ''site is down''\<rparr>,
      \<lparr>fb_id = 12, fb_content = ''''\<rparr>,
      \<lparr>fb_id = 13, fb_content = ''?''\<rparr>]"

text \<open>
  Consecutive chunks of size \<open>n\<close>, the last one possibly smaller, as the specification
  describes the batching.
\<close>

fun chunks_of :: "nat \<Rightarrow> 'a list \<Rightarrow> 'a list list" where
  "chunks_of n xs = (if n = 0 \<or> xs = [] then [] else take n xs # chunks_of n (drop n xs))"

declare chunks_of.simps [simp del]

text \<open>
  The answers of the embedding service to a sequence of requests, the first of them being
  request number \<open>k\<close>; a throw is represented by no vectors.
\<close>

fun answers :: "Ai \<Rightarrow> nat \<Rightarrow> string list list \<Rightarrow> vec option list list" where
  "answers ai k [] = []"
| "answers ai k (request # requests) =
     (case ai k request of Inl error \<Rightarrow> [] | Inr vectors \<Rightarrow> vectors) # answers ai (Suc k) requests"

text \<open>A list of 250 items.\<close>

definition example_250 :: "FeedbackItem list" where
  "example_250 = map (\<lambda>n. \<lparr>fb_id = int n, fb_content = ''feedback''\<rparr>) [0..<250]"

text \<open>
  An embedding service like the example service, except that its third request (the
  urgency labels) throws.
\<close>

definition failing_ai :: Ai where
  "failing_ai k texts =
     (if k = 2 then Inl (Error ''embedding service unavailable'') else example_ai k texts)"

text \<open>
  The classification of the vector \<open>(1, 1, 1, 1)\<close> against the example anchors: every anchor
  scores 0.5, so the first label of every category wins.
\<close>

definition example_classification :: "string \<rightharpoonup> ClassificationResult" where
  "example_classification =
     [''products'' \<mapsto> \<lparr>cr_category = ''products'', cr_label = ''D1'', cr_confidence = 1 / 2\<rparr>,
      ''polarity'' \<mapsto> \<lparr>cr_category = ''polarity'', cr_label = ''positive'', cr_confidence = 1 / 2\<rparr>,
      ''urgency'' \<mapsto> \<lparr>cr_category = ''urgency'', cr_label = ''critical'', cr_confidence = 1 / 2\<rparr>,
      ''feedbackType'' \<mapsto> \<lparr>cr_category = ''feedbackType'', cr_label = ''bug'', cr_confidence = 1 / 2\<rparr>,
      ''churnRisk'' \<mapsto> \<lparr>cr_category = ''churnRisk'', cr_label = ''high'', cr_confidence = 1 / 2\<rparr>]"

text \<open>The row written for item 11 with that classification.\<close>

definition example_row :: classification_row where
  "example_row =
     \<lparr>feedback_id = 11,
      sentiment = Some ''positive'', sentiment_confidence = Some (1 / 2),
      urgency = Some ''critical'', urgency_confidence = Some (1 / 2),
      product_detected = Some ''D1'', product_confidence = Some (1 / 2),
      feedback_type = Some ''bug'', feedback_type_confidence = Some (1 / 2),
      churn_risk = Some ''high''\<rparr>"

section \<open>Notions for the refinement decision\<close>

text \<open>The five category names, in the order of the label definitions.\<close>

definition category_names :: "string list" where
  "category_names = map ld_category LABEL_DEFINITIONS"

text \<open>The lowest confidence across the five categories of a classification map.\<close>

definition lowest_confidence :: "(string \<rightharpoonup> ClassificationResult) \<Rightarrow> real" where
  "lowest_confidence cls = Min (set (map (\<lambda>name. cr_confidence (the (cls name))) category_names))"

text \<open>
  The difference between the highest and the second highest of a list of scores (the
  second highest being the highest of the list without one occurrence of the highest).
\<close>

definition top_two_gap :: "real list \<Rightarrow> real" where
  "top_two_gap scores =
     Max (set scores) - Max (set (remove1 (Max (set scores)) scores))"

text \<open>
  What one round of the loop of \<open>classifyFeedback\<close> computes for a category: its best
  match, when there is one, and whether the mixed-sentiment test holds for its scores.
\<close>

definition best_of :: "vec \<Rightarrow> CategoryEmbeddings \<Rightarrow> Similarity option" where
  "best_of v cat =
     (case similarities_of v (ce_embeddings cat) of
        Inl error \<Rightarrow> None
      | Inr similarities \<Rightarrow>
          (case bestMatch_of similarities of Inl error \<Rightarrow> None | Inr bestMatch \<Rightarrow> Some bestMatch))"

definition mixed_of :: "vec \<Rightarrow> CategoryEmbeddings \<Rightarrow> bool" where
  "mixed_of v cat =
     (case similarities_of v (ce_embeddings cat) of
        Inl error \<Rightarrow> False
      | Inr similarities \<Rightarrow>
          (let topTwo = slice (sort_by_score_desc similarities) 0 2
           in length topTwo = 2
              \<and> \<bar>sim_score (topTwo ! 0) - sim_score (topTwo ! 1)\<bar> < 0.15))"

text \<open>The state after a round with best match \<open>b\<close>.\<close>

definition after_round :: "vec \<Rightarrow> CategoryEmbeddings \<Rightarrow> Similarity \<Rightarrow> refinement_state \<Rightarrow> refinement_state" where
  "after_round v cat b st =
     \<lparr>rs_classifications =
        (rs_classifications st)(ce_category cat \<mapsto>
           \<lparr>cr_category = ce_category cat,
            cr_label = extractLabelName (sim_label b),
            cr_confidence = sim_score b\<rparr>),
      lowestConfidence = min (sim_score b) (lowestConfidence st),
      hasCriticalUrgency =
        (hasCriticalUrgency st
         \<or> (ce_category cat = ''urgency'' \<and> startsWith (sim_label b) ''critical'')),
      hasMixedSentiment =
        (hasMixedSentiment st \<or> (ce_category cat = ''polarity'' \<and> mixed_of v cat))\<rparr>"

text \<open>A service for the single-item path that answers every text with \<open>(1, 1, 1, 1)\<close>.\<close>

definition example_single_ai :: "string \<Rightarrow> thrown + embedding_data" where
  "example_single_ai feedbackText = Inr (Nested [[1, 1, 1, 1]])"

text \<open>
  An embedding service like the example service, except that its sixth request (the first
  chunk of item texts, after the five anchor requests) throws.
\<close>

definition chunk_failing_ai :: Ai where
  "chunk_failing_ai k texts =
     (if k = 5 then Inl (Error ''embedding service unavailable'') else example_ai k texts)"

section \<open>Properties of the vector math\<close>

lemma foldl_zip_upt_sum:
  fixes g :: "'a \<Rightarrow> nat \<Rightarrow> real"
  shows "foldl (\<lambda>acc (x, i). acc + g x i) s (zip xs [k..<k + length xs])
         = s + (\<Sum>i<length xs. g (xs ! i) (k + i))"
proof (induction xs arbitrary: s k)
  case Nil
  then show ?case by simp
next
  case (Cons x xs)
  have upt: "[k..<k + length (x # xs)] = k # [Suc k..<Suc k + length xs]"
    using upt_rec [of k "k + length (x # xs)"] by simp
  have "foldl (\<lambda>acc (x, i). acc + g x i) s (zip (x # xs) [k..<k + length (x # xs)])
        = foldl (\<lambda>acc (x, i). acc + g x i) (s + g x k) (zip xs [Suc k..<Suc k + length xs])"
    by (simp only: upt zip_Cons_Cons foldl_Cons prod.case)
  also have "\<dots> = (s + g x k) + (\<Sum>i<length xs. g (xs ! i) (Suc k + i))"
    by (rule Cons.IH)
  also have "\<dots> = s + (\<Sum>i<length (x # xs). g ((x # xs) ! i) (k + i))"
    by (simp add: sum.lessThan_Suc_shift del: sum.lessThan_Suc)
  finally show ?case .
qed

lemma reduce_idx_dot:
  "reduce_idx (\<lambda>sum a i. sum + a * vecB ! i) 0 vecA = dot vecA vecB"
  using foldl_zip_upt_sum [of "\<lambda>a i. a * vecB ! i" 0 vecA 0]
  by (simp add: reduce_idx_def dot_def)

lemma foldl_squares_sum:
  fixes s :: real
  shows "foldl (\<lambda>sum a. sum + a * a) s xs = s + (\<Sum>i<length xs. (xs ! i)\<^sup>2)"
proof (induction xs arbitrary: s)
  case Nil
  then show ?case by simp
next
  case (Cons x xs)
  then show ?case
    by (simp add: sum.lessThan_Suc_shift power2_eq_square del: sum.lessThan_Suc)
qed

lemma sqrt_foldl_magnitude:
  "sqrt (foldl (\<lambda>sum a. sum + a * a) 0 xs) = magnitude xs"
  by (simp add: foldl_squares_sum magnitude_def)

text \<open>
  Over the reals the model of \<open>cosineSimilarity\<close> computes the cosine: with different
  lengths it throws the dimension-mismatch error; with equal lengths it returns 0 when one
  of the two magnitudes is zero, and otherwise the dot product divided by the product of
  the two magnitudes, a divisor that is then not zero. This is a property of the
  real-valued model only; it says nothing of the doubles the code computes where these
  overflow, underflow or round.
\<close>

lemma cosineSimilarity_over_reals:
  "(length a \<noteq> length b \<longrightarrow>
      cosineSimilarity a b = Inl (Error ''Vectors must have the same length''))
   \<and> (length a = length b \<and> (magnitude a = 0 \<or> magnitude b = 0) \<longrightarrow>
      cosineSimilarity a b = Inr 0)
   \<and> (length a = length b \<and> magnitude a \<noteq> 0 \<and> magnitude b \<noteq> 0 \<longrightarrow>
      cosineSimilarity a b = Inr (dot a b / (magnitude a * magnitude b))
      \<and> magnitude a * magnitude b \<noteq> 0)"
  by (simp add: cosineSimilarity_def reduce_idx_dot sqrt_foldl_magnitude Let_def)

section \<open>Properties of the summary\<close>

text \<open>
  Claim C3. The window selector is an ordered cascade that stops at the first match: a
  positive 7-day critical count gives the 7-day urgent focus; otherwise a 7-day high count
  below 5 gives the 30-day fallback; otherwise a 30-day critical count below 5 gives the
  all-time trend; otherwise the 30-day performance focus. The four inputs of the
  specification's table select the focus it lists, and the four focus texts differ from
  one another.
\<close>

theorem summary_window_cascade:
  "windowContext m =
     (if criticalCount (recent7d m) > 0 then focus_7day_urgent (criticalCount (recent7d m))
      else if highCount (recent7d m) < 5 then focus_30day_fallback
      else if criticalCount (recent30d m) < 5 then focus_alltime_trend
      else focus_30day_performance)
   \<and> (criticalCount (recent7d m) = 0 \<and> highCount (recent7d m) = 3 \<longrightarrow>
        windowContext m = focus_30day_fallback)
   \<and> (criticalCount (recent7d m) = 2 \<longrightarrow> windowContext m = focus_7day_urgent 2)
   \<and> (criticalCount (recent7d m) = 0 \<and> highCount (recent7d m) = 7
        \<and> criticalCount (recent30d m) = 2 \<longrightarrow> windowContext m = focus_alltime_trend)
   \<and> (criticalCount (recent7d m) = 0 \<and> highCount (recent7d m) = 7
        \<and> criticalCount (recent30d m) = 8 \<longrightarrow> windowContext m = focus_30day_performance)
   \<and> distinct [focus_7day_urgent n, focus_30day_fallback, focus_alltime_trend,
        focus_30day_performance]"
  by (simp add: windowContext_def focus_7day_urgent_def focus_30day_fallback_def
      focus_alltime_trend_def focus_30day_performance_def Let_def not_le)

theorem summary_window_cascade_witness:
  "windowContext (example_metrics 0 3 0) = focus_30day_fallback
   \<and> windowContext (example_metrics 2 0 0) = focus_7day_urgent 2
   \<and> windowContext (example_metrics 0 7 2) = focus_alltime_trend
   \<and> windowContext (example_metrics 0 7 8) = focus_30day_performance"
  using summary_window_cascade [of "example_metrics 0 3 0"]
    summary_window_cascade [of "example_metrics 2 0 0"]
    summary_window_cascade [of "example_metrics 0 7 2"]
    summary_window_cascade [of "example_metrics 0 7 8"]
  by (simp add: example_metrics_def Let_def)

text \<open>
  Claim C8. The summary composer never throws: for all metrics and every behaviour of the
  text model it returns a non-empty text. When the completion call throws, the text is the
  fallback that describes the failure; when the call answers with a missing or empty
  response, the text is the placeholder.
\<close>

theorem summary_never_throws:
  "(\<exists>s. generateExecutiveSummary m ai = Inr s \<and> s \<noteq> [])
   \<and> (\<forall>e. ai (summaryPrompt m) = Inl e \<longrightarrow>
         generateExecutiveSummary m ai =
           Inr (''Unable to generate summary: '' @
                  (case e of Error message \<Rightarrow> message | NonError \<Rightarrow> ''Unknown error'')))
   \<and> (ai (summaryPrompt m) = Inr None \<or> ai (summaryPrompt m) = Inr (Some []) \<longrightarrow>
         generateExecutiveSummary m ai = Inr ''Summary generation in progress...'')"
  by (auto simp: generateExecutiveSummary_def split: sum.splits option.splits thrown.splits)

theorem summary_never_throws_witness:
  "generateExecutiveSummary (example_metrics 0 3 0) (\<lambda>prompt. Inl (Error ''timeout''))
     = Inr ''Unable to generate summary: timeout''
   \<and> generateExecutiveSummary (example_metrics 0 3 0) (\<lambda>prompt. Inl NonError)
     = Inr ''Unable to generate summary: Unknown error''
   \<and> generateExecutiveSummary (example_metrics 0 3 0) (\<lambda>prompt. Inr (Some []))
     = Inr ''Summary generation in progress...''"
  using summary_never_throws [of "example_metrics 0 3 0" "\<lambda>prompt. Inl (Error ''timeout'')"]
    summary_never_throws [of "example_metrics 0 3 0" "\<lambda>prompt. Inl NonError"]
    summary_never_throws [of "example_metrics 0 3 0" "\<lambda>prompt. Inr (Some [])"]
  by simp

section \<open>Properties of the persistence mapping\<close>

lemma or_null_number_None:
  "map_option cr_confidence x = Some 0 \<or> x = None
     \<Longrightarrow> or_null_number (map_option cr_confidence x) = None"
  by (auto simp: or_null_number_def)

lemma or_null_of_None: "or_null_string None = None" "or_null_number None = None"
  by (simp_all add: or_null_string_def or_null_number_def)

lemma batch_row_null: "null_coerced (br_classifications res) (batch_row res)"
  by (simp add: null_coerced_def confidence_columns_def label_columns_def batch_row_def
      or_null_number_None or_null_of_None Let_def)

lemma saveClassifications_row:
  assumes "saveClassifications db fid cls notes = Inr db'"
  shows "\<exists>row. rows db' = rows db @ [row] \<and> feedback_id row = fid \<and> null_coerced cls row"
proof -
  let ?row = "\<lparr>feedback_id = fid,
      sentiment = or_null_string (map_option cr_label (cls ''polarity'')),
      sentiment_confidence = or_null_number (map_option cr_confidence (cls ''polarity'')),
      urgency = or_null_string (map_option cr_label (cls ''urgency'')),
      urgency_confidence = or_null_number (map_option cr_confidence (cls ''urgency'')),
      product_detected = or_null_string (map_option cr_label (cls ''products'')),
      product_confidence = or_null_number (map_option cr_confidence (cls ''products'')),
      feedback_type = or_null_string (map_option cr_label (cls ''feedbackType'')),
      feedback_type_confidence = or_null_number (map_option cr_confidence (cls ''feedbackType'')),
      churn_risk = or_null_string (map_option cr_label (cls ''churnRisk''))\<rparr>"
  have "db_batch db [?row] = Inr db'"
    using assms by (simp add: saveClassifications_def Let_def)
  then have "rows db' = rows db @ [?row]"
    by (auto simp: db_batch_def split: option.splits)
  moreover have "null_coerced cls ?row"
    by (simp add: null_coerced_def confidence_columns_def label_columns_def
        or_null_number_None or_null_of_None)
  ultimately show ?thesis by simp
qed

text \<open>
  Claim C10. Both save paths coerce with \<open>|| null\<close>: the row built for a result of the bulk
  job and the row written by \<open>saveClassifications\<close> hold \<open>NULL\<close> in the confidence column
  of every category whose confidence is exactly 0, and \<open>NULL\<close> in the label and confidence
  columns of every category absent from the classification map; an absent category is no
  error.
\<close>

theorem persisted_null_coercion:
  "null_coerced (br_classifications res) (batch_row res)
   \<and> (\<forall>db'. saveClassifications db fid cls notes = Inr db' \<longrightarrow>
         (\<exists>row. rows db' = rows db @ [row] \<and> feedback_id row = fid \<and> null_coerced cls row))"
  using batch_row_null saveClassifications_row by blast

theorem persisted_null_coercion_witness:
  "sentiment_confidence (batch_row \<lparr>br_id = 7, br_classifications = example_classifications\<rparr>) = None
   \<and> product_detected (batch_row \<lparr>br_id = 7, br_classifications = example_classifications\<rparr>) = None
   \<and> product_confidence (batch_row \<lparr>br_id = 7, br_classifications = example_classifications\<rparr>) = None
   \<and> (\<exists>row. saveClassifications example_db 7 example_classifications None
               = Inr (example_db\<lparr>rows := [row]\<rparr>)
          \<and> sentiment row = Some ''neutral'' \<and> sentiment_confidence row = None
          \<and> churn_risk row = None)"
  using persisted_null_coercion [of "\<lparr>br_id = 7, br_classifications = example_classifications\<rparr>"
      example_db 7 example_classifications None]
  by (simp add: null_coerced_def confidence_columns_def label_columns_def
      example_classifications_def example_db_def saveClassifications_def db_batch_def
      or_null_number_def or_null_string_def)

section \<open>Properties of the anchors\<close>


lemma bind_labels_labels:
  "bind_labels labels index embeddingData = Inr embeddings \<Longrightarrow> map le_label embeddings = labels"
  by (induction labels arbitrary: index embeddings)
     (auto split: option.splits sum.splits)

lemma precompute_loop_shape:
  "precompute_loop ai defs acc calls = (Inr out, calls')
     \<Longrightarrow> \<exists>new. out = acc @ new
           \<and> list_all2 (\<lambda>d c. ce_category c = ld_category d
                              \<and> map le_label (ce_embeddings c) = ld_labels d) defs new"
proof (induction defs arbitrary: acc calls)
  case Nil
  then show ?case by simp
next
  case (Cons labelDef rest)
  from Cons.prems obtain embeddingData embeddings where
    call: "ai (length calls) (ld_labels labelDef) = Inr embeddingData" and
    bound: "bind_labels (ld_labels labelDef) 0 embeddingData = Inr embeddings" and
    rec: "precompute_loop ai rest
            (acc @ [\<lparr>ce_category = ld_category labelDef, ce_embeddings = embeddings\<rparr>])
            (calls @ [ld_labels labelDef]) = (Inr out, calls')"
    by (auto split: sum.splits)
  from Cons.IH [OF rec] obtain new where
    new: "out = (acc @ [\<lparr>ce_category = ld_category labelDef, ce_embeddings = embeddings\<rparr>]) @ new"
      "list_all2 (\<lambda>d c. ce_category c = ld_category d
                          \<and> map le_label (ce_embeddings c) = ld_labels d) rest new"
    by blast
  let ?c = "\<lparr>ce_category = ld_category labelDef, ce_embeddings = embeddings\<rparr>"
  have "out = acc @ (?c # new)"
    using new(1) by simp
  moreover have "list_all2 (\<lambda>d c. ce_category c = ld_category d
                          \<and> map le_label (ce_embeddings c) = ld_labels d) (labelDef # rest) (?c # new)"
    using new(2) bind_labels_labels [OF bound] by simp
  ultimately show ?case by blast
qed

lemma precompute_labels:
  assumes "precomputeLabelEmbeddings ai calls = (Inr labelEmbeddings, calls')"
    and "cat \<in> set labelEmbeddings"
  shows "ce_embeddings cat \<noteq> [] \<and> (\<forall>e \<in> set (ce_embeddings cat). le_label e \<in> set all_label_texts)"
proof -
  from precompute_loop_shape [OF assms(1) [unfolded precomputeLabelEmbeddings_def]]
  have shape: "list_all2 (\<lambda>d c. ce_category c = ld_category d
                  \<and> map le_label (ce_embeddings c) = ld_labels d) LABEL_DEFINITIONS labelEmbeddings"
    by simp
  from assms(2) obtain n where n: "n < length labelEmbeddings" "labelEmbeddings ! n = cat"
    by (auto simp: in_set_conv_nth)
  with shape have len: "n < length LABEL_DEFINITIONS"
    and lab: "map le_label (ce_embeddings cat) = ld_labels (LABEL_DEFINITIONS ! n)"
    by (auto simp: list_all2_conv_all_nth)
  have nonempty: "\<forall>d \<in> set LABEL_DEFINITIONS. ld_labels d \<noteq> []"
    by (simp add: LABEL_DEFINITIONS_def)
  have "ld_labels (LABEL_DEFINITIONS ! n) \<noteq> []"
    using nonempty len by simp
  then have "ce_embeddings cat \<noteq> []"
    using lab by auto
  moreover have "set (ld_labels (LABEL_DEFINITIONS ! n)) \<subseteq> set all_label_texts"
    using nth_mem [OF len] by (auto simp: all_label_texts_def)
  then have "\<forall>e \<in> set (ce_embeddings cat). le_label e \<in> set all_label_texts"
    using lab by (metis image_eqI list.set_map subsetD)
  ultimately show ?thesis by simp
qed

section \<open>Properties of the best match\<close>

text \<open>The score of an anchor for a vector of the same dimension.\<close>

lemma cosineSimilarity_total:
  "length a = length b \<Longrightarrow> cosineSimilarity a b = Inr (projr (cosineSimilarity a b))"
  by (simp add: cosineSimilarity_def Let_def)

lemma similarities_of_total:
  assumes "\<forall>e \<in> set embeddings. length (le_embedding e) = length v"
  shows "similarities_of v embeddings =
           Inr (map (\<lambda>e. \<lparr>sim_label = le_label e,
                           sim_score = projr (cosineSimilarity v (le_embedding e))\<rparr>) embeddings)"
  using assms
proof (induction embeddings)
  case Nil
  then show ?case by (simp add: similarities_of_def)
next
  case (Cons e embeddings)
  obtain s where s: "cosineSimilarity v (le_embedding e) = Inr s"
    using Cons.prems cosineSimilarity_total [of v "le_embedding e"] by auto
  have "similarities_of v embeddings =
          Inr (map (\<lambda>e. \<lparr>sim_label = le_label e,
                          sim_score = projr (cosineSimilarity v (le_embedding e))\<rparr>) embeddings)"
    using Cons by simp
  then show ?case
    using s by (simp add: similarities_of_def)
qed

text \<open>
  The fold with the strict comparison keeps the first element of maximal score: no element
  scores higher, and every element before it scores strictly lower.
\<close>

lemma foldl_first_max:
  "\<exists>k < length (x # xs).
     foldl (\<lambda>mx curr. if sim_score curr > sim_score mx then curr else mx) x xs = (x # xs) ! k
     \<and> (\<forall>j < length (x # xs). sim_score ((x # xs) ! j) \<le> sim_score ((x # xs) ! k))
     \<and> (\<forall>j < k. sim_score ((x # xs) ! j) < sim_score ((x # xs) ! k))"
proof (induction xs rule: rev_induct)
  case Nil
  then show ?case by simp
next
  case (snoc y xs)
  let ?f = "\<lambda>mx curr. if sim_score curr > sim_score mx then curr else mx"
  from snoc obtain k where k: "k < length (x # xs)" "foldl ?f x xs = (x # xs) ! k"
    "\<forall>j < length (x # xs). sim_score ((x # xs) ! j) \<le> sim_score ((x # xs) ! k)"
    "\<forall>j < k. sim_score ((x # xs) ! j) < sim_score ((x # xs) ! k)"
    by blast
  have nth_old: "\<And>j. j < length (x # xs) \<Longrightarrow> (x # xs @ [y]) ! j = (x # xs) ! j"
    by (metis append_Cons nth_append)
  have nth_new: "(x # xs @ [y]) ! length (x # xs) = y"
    by (metis append_Cons nth_append_length)
  show ?case
  proof (cases "sim_score y > sim_score ((x # xs) ! k)")
    case True
    have "foldl ?f x (xs @ [y]) = y"
      using True k(2) by simp
    moreover have "\<forall>j < length (x # xs @ [y]). sim_score ((x # xs @ [y]) ! j) \<le> sim_score y"
    proof (intro allI impI)
      fix j assume "j < length (x # xs @ [y])"
      then consider "j < length (x # xs)" | "j = length (x # xs)" by fastforce
      then show "sim_score ((x # xs @ [y]) ! j) \<le> sim_score y"
      proof cases
        case 1
        then show ?thesis using k(3) True nth_old [OF 1] by fastforce
      next
        case 2
        then show ?thesis using nth_new by simp
      qed
    qed
    moreover have "\<forall>j < length (x # xs). sim_score ((x # xs @ [y]) ! j) < sim_score y"
      using k(3) True nth_old by fastforce
    ultimately show ?thesis
      using nth_new by (intro exI [of _ "length (x # xs)"]) simp
  next
    case False
    have "foldl ?f x (xs @ [y]) = (x # xs) ! k"
      using False k(2) by simp
    moreover have "\<forall>j < length (x # xs @ [y]).
        sim_score ((x # xs @ [y]) ! j) \<le> sim_score ((x # xs) ! k)"
    proof (intro allI impI)
      fix j assume "j < length (x # xs @ [y])"
      then consider "j < length (x # xs)" | "j = length (x # xs)" by fastforce
      then show "sim_score ((x # xs @ [y]) ! j) \<le> sim_score ((x # xs) ! k)"
      proof cases
        case 1
        then show ?thesis using k(3) nth_old [OF 1] by simp
      next
        case 2
        then show ?thesis using nth_new False by simp
      qed
    qed
    moreover have "\<forall>j < k. sim_score ((x # xs @ [y]) ! j) < sim_score ((x # xs) ! k)"
      using k(1,4) nth_old by simp
    ultimately show ?thesis
      using k(1) nth_old [OF k(1)] by (intro exI [of _ k]) simp
  qed
qed

lemma bestMatch_of_first_max:
  assumes "sims \<noteq> []"
  shows "\<exists>k < length sims. bestMatch_of sims = Inr (sims ! k)
           \<and> (\<forall>j < length sims. sim_score (sims ! j) \<le> sim_score (sims ! k))
           \<and> (\<forall>j < k. sim_score (sims ! j) < sim_score (sims ! k))"
proof -
  from assms obtain x xs where sims: "sims = x # xs"
    by (cases sims) auto
  show ?thesis
    unfolding sims bestMatch_of_def reduce1_def using foldl_first_max [of x xs] by simp
qed

lemma cosineSimilarity_example:
  "cosineSimilarity [1, 1, 1, 1] [1, 0, 0, 0] = Inr (1 / 2)"
  by (simp add: cosineSimilarity_def reduce_idx_def Let_def upt_rec)

lemma precompute_example:
  "precomputeLabelEmbeddings example_ai [] = (Inr example_anchors, map ld_labels LABEL_DEFINITIONS)"
  by (simp add: precomputeLabelEmbeddings_def LABEL_DEFINITIONS_def example_ai_def
      example_anchors_def js_index_def)

section \<open>Properties of the classification pass and of the save loop\<close>

lemma positions_step:
  assumes "i < n"
  shows "classified_positions le embs i n =
           (if classification_of le embs i \<noteq> None then [i] else []) @ classified_positions le embs (Suc i) n"
    and "failed_positions le embs i n =
           (if classification_of le embs i = None then [i] else []) @ failed_positions le embs (Suc i) n"
  using assms by (simp_all add: classified_positions_def failed_positions_def upt_conv_Cons)

lemma positions_done:
  assumes "\<not> i < n"
  shows "classified_positions le embs i n = []" and "failed_positions le embs i n = []"
  using assms by (simp_all add: classified_positions_def failed_positions_def)

lemma classify_loop_spec:
  "classify_loop le items embs i c f batchResults =
     (c + length (classified_positions le embs i (length items)),
      f + length (failed_positions le embs i (length items)),
      batchResults @ map (result_at le items embs) (classified_positions le embs i (length items)))"
proof (induction le items embs i c f batchResults rule: classify_loop.induct)
  case (1 le items embs i c f batchResults)
  show ?case
  proof (cases "i < length items")
    case False
    then show ?thesis
      by (subst classify_loop.simps) (simp add: positions_done)
  next
    case inrange: True
    note step = positions_step [OF inrange, of le embs]
    show ?thesis
    proof (cases "js_index embs i")
      case None
      then have none: "classification_of le embs i = None"
        by (simp add: classification_of_def)
      have "classify_loop le items embs i c f batchResults =
              classify_loop le items embs (i + 1) c (f + 1) batchResults"
        using inrange None by (subst classify_loop.simps) simp
      also have "\<dots> = (c + length (classified_positions le embs (i + 1) (length items)),
          f + 1 + length (failed_positions le embs (i + 1) (length items)),
          batchResults @ map (result_at le items embs)
            (classified_positions le embs (i + 1) (length items)))"
        using "1.IH"(1) [OF inrange refl None] .
      finally show ?thesis
        using step none by simp
    next
      case (Some v)
      show ?thesis
      proof (cases "classify_categories v le Map.empty")
        case (Inl error)
        then have none: "classification_of le embs i = None"
          using Some by (simp add: classification_of_def)
        have "classify_loop le items embs i c f batchResults =
                classify_loop le items embs (i + 1) c (f + 1) batchResults"
          using inrange Some Inl by (subst classify_loop.simps) simp
        also have "\<dots> = (c + length (classified_positions le embs (i + 1) (length items)),
            f + 1 + length (failed_positions le embs (i + 1) (length items)),
            batchResults @ map (result_at le items embs)
              (classified_positions le embs (i + 1) (length items)))"
          using "1.IH"(2) [OF inrange refl Some Inl] .
        finally show ?thesis
          using step none by simp
      next
        case (Inr cls)
        then have some: "classification_of le embs i = Some cls"
          using Some by (simp add: classification_of_def)
        let ?res = "\<lparr>br_id = fb_id (items ! i), br_classifications = cls\<rparr>"
        have res: "result_at le items embs i = ?res"
          using some by (simp add: result_at_def)
        have "classify_loop le items embs i c f batchResults =
                classify_loop le items embs (i + 1) (c + 1) f (batchResults @ [?res])"
          using inrange Some Inr by (subst classify_loop.simps) simp
        also have "\<dots> = (c + 1 + length (classified_positions le embs (i + 1) (length items)),
            f + length (failed_positions le embs (i + 1) (length items)),
            (batchResults @ [?res]) @ map (result_at le items embs)
              (classified_positions le embs (i + 1) (length items)))"
          using "1.IH"(3) [OF inrange refl Some Inr] .
        finally show ?thesis
          using step some res by simp
      qed
    qed
  qed
qed

lemma positions_partition:
  "length (classified_positions le embs i n) + length (failed_positions le embs i n) = n - i"
  using sum_length_filter_compl [of "\<lambda>j. classification_of le embs j \<noteq> None" "[i..<n]"]
  by (simp add: classified_positions_def failed_positions_def)

lemma missing_vector_failed:
  "j < n \<Longrightarrow> js_index embs j = None \<Longrightarrow>
     j \<in> set (failed_positions le embs 0 n) \<and> j \<notin> set (classified_positions le embs 0 n)"
  by (simp add: failed_positions_def classified_positions_def classification_of_def)

lemma slice_take_drop: "slice xs i (i + n) = take n (drop i xs)"
  by (simp add: slice_def)

lemma save_loop_written:
  "save_loop db batchResults i = (r, db') \<Longrightarrow>
     \<exists>m. rows db' = rows db @ map batch_row (take m (drop i batchResults))
         \<and> (r = None \<longrightarrow> rows db' = rows db @ map batch_row (drop i batchResults))"
proof (induction db batchResults i arbitrary: r db' rule: save_loop.induct)
  case (1 db batchResults i)
  show ?case
  proof (cases "i < length batchResults")
    case False
    then have "save_loop db batchResults i = (None, db)"
      by (subst save_loop.simps) simp
    with "1.prems" False show ?thesis by simp
  next
    case inrange: True
    let ?batch = "map batch_row (slice batchResults i (i + saveChunkSize))"
    show ?thesis
    proof (cases "db_batch db ?batch")
      case (Inl error)
      then have "save_loop db batchResults i = (Some error, db)"
        using inrange by (subst save_loop.simps) (simp add: Let_def)
      with "1.prems" have "r = Some error" "db' = db" by simp_all
      then show ?thesis
        by (intro exI [of _ 0]) simp
    next
      case (Inr db1)
      then have rows1: "rows db1 = rows db @ ?batch"
        by (auto simp: db_batch_def split: option.splits)
      have "save_loop db batchResults i = save_loop db1 batchResults (i + saveChunkSize)"
        using inrange Inr by (subst save_loop.simps) (simp add: Let_def)
      with "1.prems" have rec: "save_loop db1 batchResults (i + saveChunkSize) = (r, db')"
        by simp
      from "1.IH" [OF inrange refl refl Inr rec] obtain m where
        m: "rows db' = rows db1 @ map batch_row (take m (drop (i + saveChunkSize) batchResults))"
          "r = None \<longrightarrow> rows db' = rows db1 @ map batch_row (drop (i + saveChunkSize) batchResults)"
        by blast
      have split: "drop i batchResults =
          take saveChunkSize (drop i batchResults) @ drop (i + saveChunkSize) batchResults"
        by (metis add.commute append_take_drop_id drop_drop)
      have chunk: "?batch = map batch_row (take saveChunkSize (drop i batchResults))"
        by (simp add: slice_take_drop)
      have len: "length (take saveChunkSize (drop i batchResults)) \<le> saveChunkSize"
        by simp
      have "take (length (take saveChunkSize (drop i batchResults)) + m) (drop i batchResults) =
              take saveChunkSize (drop i batchResults)
                @ take m (drop (i + saveChunkSize) batchResults)"
        by (subst split) (simp only: take_append, simp add: add.commute min_def)
      then have "rows db' = rows db @ map batch_row
          (take (length (take saveChunkSize (drop i batchResults)) + m) (drop i batchResults))"
        using m(1) rows1 chunk by simp
      moreover have "r = None \<longrightarrow> rows db' = rows db @ map batch_row (drop i batchResults)"
      proof
        assume "r = None"
        with m(2) have "rows db' = rows db @ ?batch
            @ map batch_row (drop (i + saveChunkSize) batchResults)"
          using rows1 by simp
        also have "\<dots> = rows db @ map batch_row
            (take saveChunkSize (drop i batchResults) @ drop (i + saveChunkSize) batchResults)"
          using chunk by simp
        finally show "rows db' = rows db @ map batch_row (drop i batchResults)"
          using split by simp
      qed
      ultimately show ?thesis by blast
    qed
  qed
qed

lemma db_batch_rejects:
  "db_batch db batch = Inr db1 \<Longrightarrow> rejects db1 = rejects db"
  by (auto simp: db_batch_def split: option.splits)

lemma save_loop_accepting:
  "\<forall>stored batch. rejects db stored batch = None \<Longrightarrow> fst (save_loop db batchResults i) = None"
proof (induction db batchResults i rule: save_loop.induct)
  case (1 db batchResults i)
  show ?case
  proof (cases "i < length batchResults")
    case False
    then show ?thesis
      by (subst save_loop.simps) simp
  next
    case inrange: True
    let ?batch = "map batch_row (slice batchResults i (i + saveChunkSize))"
    obtain db1 where ok: "db_batch db ?batch = Inr db1"
      using "1.prems" by (simp add: db_batch_def)
    have "\<forall>stored batch. rejects db1 stored batch = None"
      using db_batch_rejects [OF ok] "1.prems" by simp
    from "1.IH" [OF inrange refl refl ok this]
    show ?thesis
      using inrange ok by (subst save_loop.simps) (simp add: Let_def)
  qed
qed

lemma batchClassifyFeedback_run:
  assumes "precomputeLabelEmbeddings ai [] = (Inr le, calls1)"
    and "embed_chunks ai items 0 [] calls1 = (Inr embs, calls2)"
    and "save_loop db (map (result_at le items embs)
           (classified_positions le embs 0 (length items))) 0 = (r, db')"
  shows "batchClassifyFeedback items db ai =
           \<lparr>outcome =
              (case r of
                 Some error \<Rightarrow> Inl error
               | None \<Rightarrow>
                   Inr \<lparr>classified = length (classified_positions le embs 0 (length items)),
                        failed = length (failed_positions le embs 0 (length items))\<rparr>),
            final_db = db', ai_calls = calls2\<rparr>"
  using assms
  by (simp add: batchClassifyFeedback_def classify_loop_spec split: option.splits)

lemma precompute_chunk_failing:
  "precomputeLabelEmbeddings chunk_failing_ai [] =
     (Inr example_anchors, map ld_labels LABEL_DEFINITIONS)"
  by (simp add: precomputeLabelEmbeddings_def LABEL_DEFINITIONS_def chunk_failing_ai_def
      example_ai_def example_anchors_def js_index_def)

lemma embed_chunk_failing:
  "embed_chunks chunk_failing_ai example_items 0 [] (map ld_labels LABEL_DEFINITIONS) =
     (Inl (Error ''embedding service unavailable''),
      map ld_labels LABEL_DEFINITIONS @ [[''site is down'', '''', ''?'']])"
  by (simp add: embed_chunks.simps example_items_def chunk_failing_ai_def slice_def chunkSize_def
      LABEL_DEFINITIONS_def)

text \<open>
  The claim as the specification states it fails when a chunk embedding request throws:
  the request is outside any \<open>try\<close>, so the throw leaves the job, which returns no counts
  for the three example items and writes nothing.
\<close>

theorem chunk_failure_no_counts_counterexample:
  "batchClassifyFeedback example_items example_db chunk_failing_ai =
     \<lparr>outcome = Inl (Error ''embedding service unavailable''),
      final_db = example_db,
      ai_calls = map ld_labels LABEL_DEFINITIONS @ [[''site is down'', '''', ''?'']]\<rparr>"
  by (simp add: batchClassifyFeedback_def precompute_chunk_failing embed_chunk_failing)

text \<open>
  Claim C9, amended. For every input list for which the anchor precomputation and every
  chunk embedding request succeed, the positions of the input split into classified and
  failed ones, each position in exactly one of the two, and a position whose vector is
  missing is a failed one. The rows the job writes are rows of classified positions only,
  in order. When the job returns, its counts are the numbers of classified and of failed
  positions, they add up to the number of input items, and one row per classified position
  has been written; the job does return when the database accepts the writes. No
  embedding request is made after the item vectors are there, so nothing is retried.
\<close>

theorem job_counts_partition:
  assumes "precomputeLabelEmbeddings ai [] = (Inr le, calls1)"
    and "embed_chunks ai items 0 [] calls1 = (Inr embs, calls2)"
  shows "(\<forall>j < length items. js_index embs j = None \<longrightarrow>
            j \<in> set (failed_positions le embs 0 (length items))
            \<and> j \<notin> set (classified_positions le embs 0 (length items)))
         \<and> set (classified_positions le embs 0 (length items))
             \<inter> set (failed_positions le embs 0 (length items)) = {}
         \<and> set (classified_positions le embs 0 (length items))
             \<union> set (failed_positions le embs 0 (length items)) = {0..<length items}
         \<and> (\<exists>m. rows (final_db (batchClassifyFeedback items db ai)) =
                  rows db @ map (\<lambda>j. batch_row (result_at le items embs j))
                    (take m (classified_positions le embs 0 (length items))))
         \<and> (\<forall>counts. outcome (batchClassifyFeedback items db ai) = Inr counts \<longrightarrow>
               classified counts = length (classified_positions le embs 0 (length items))
               \<and> failed counts = length (failed_positions le embs 0 (length items))
               \<and> classified counts + failed counts = length items
               \<and> rows (final_db (batchClassifyFeedback items db ai)) =
                   rows db @ map (\<lambda>j. batch_row (result_at le items embs j))
                     (classified_positions le embs 0 (length items)))
         \<and> ((\<forall>stored batch. rejects db stored batch = None) \<longrightarrow>
               (\<exists>counts. outcome (batchClassifyFeedback items db ai) = Inr counts))
         \<and> ai_calls (batchClassifyFeedback items db ai) = calls2"
proof -
  let ?done = "classified_positions le embs 0 (length items)"
  let ?failed = "failed_positions le embs 0 (length items)"
  let ?results = "map (result_at le items embs) ?done"
  obtain r db' where save: "save_loop db ?results 0 = (r, db')"
    by (cases "save_loop db ?results 0") auto
  note run = batchClassifyFeedback_run [OF assms save]
  from save_loop_written [OF save] obtain m where
    m: "rows db' = rows db @ map batch_row (take m ?results)"
      "r = None \<longrightarrow> rows db' = rows db @ map batch_row ?results"
    by auto
  have missing: "\<forall>j < length items. js_index embs j = None \<longrightarrow> j \<in> set ?failed \<and> j \<notin> set ?done"
    using missing_vector_failed by blast
  have disjoint: "set ?done \<inter> set ?failed = {}"
    by (auto simp: classified_positions_def failed_positions_def)
  have cover: "set ?done \<union> set ?failed = {0..<length items}"
    by (auto simp: classified_positions_def failed_positions_def)
  have written: "\<exists>m. rows (final_db (batchClassifyFeedback items db ai)) =
      rows db @ map (\<lambda>j. batch_row (result_at le items embs j)) (take m ?done)"
    using m(1) by (intro exI [of _ m]) (simp add: run take_map comp_def)
  have counts: "\<forall>counts. outcome (batchClassifyFeedback items db ai) = Inr counts \<longrightarrow>
      classified counts = length ?done \<and> failed counts = length ?failed
      \<and> classified counts + failed counts = length items
      \<and> rows (final_db (batchClassifyFeedback items db ai)) =
          rows db @ map (\<lambda>j. batch_row (result_at le items embs j)) ?done"
  proof (intro allI impI)
    fix counts assume "outcome (batchClassifyFeedback items db ai) = Inr counts"
    then have r: "r = None" and c: "counts = \<lparr>classified = length ?done, failed = length ?failed\<rparr>"
      by (auto simp: run split: option.splits)
    show "classified counts = length ?done \<and> failed counts = length ?failed
      \<and> classified counts + failed counts = length items
      \<and> rows (final_db (batchClassifyFeedback items db ai)) =
          rows db @ map (\<lambda>j. batch_row (result_at le items embs j)) ?done"
      using m(2) r positions_partition [of le embs 0 "length items"]
      by (simp add: c run comp_def)
  qed
  have returns: "(\<forall>stored batch. rejects db stored batch = None) \<longrightarrow>
      (\<exists>counts. outcome (batchClassifyFeedback items db ai) = Inr counts)"
  proof
    assume "\<forall>stored batch. rejects db stored batch = None"
    from save_loop_accepting [OF this, of ?results 0] have "r = None"
      using save by simp
    then show "\<exists>counts. outcome (batchClassifyFeedback items db ai) = Inr counts"
      by (simp add: run)
  qed
  have no_retry: "ai_calls (batchClassifyFeedback items db ai) = calls2"
    by (simp add: run)
  from missing disjoint cover written counts returns no_retry show ?thesis
    by blast
qed

lemma classify_categories_total:
  assumes "\<forall>cat \<in> set le. ce_embeddings cat \<noteq> []
             \<and> (\<forall>e \<in> set (ce_embeddings cat). length (le_embedding e) = length v)"
  shows "\<exists>cls'. classify_categories v le cls = Inr cls'"
  using assms
proof (induction le arbitrary: cls)
  case Nil
  then show ?case by simp
next
  case (Cons cat rest)
  let ?sims = "map (\<lambda>e. \<lparr>sim_label = le_label e,
                  sim_score = projr (cosineSimilarity v (le_embedding e))\<rparr>) (ce_embeddings cat)"
  have sims: "similarities_of v (ce_embeddings cat) = Inr ?sims"
    using Cons.prems by (intro similarities_of_total) simp
  have "?sims \<noteq> []"
    using Cons.prems by simp
  from bestMatch_of_first_max [OF this] obtain k where best: "bestMatch_of ?sims = Inr (?sims ! k)"
    by blast
  have "\<exists>cls'. classify_categories v rest
          (cls(ce_category cat \<mapsto>
             \<lparr>cr_category = ce_category cat,
              cr_label = extractLabelName (sim_label (?sims ! k)),
              cr_confidence = sim_score (?sims ! k)\<rparr>)) = Inr cls'"
    using Cons.prems by (intro Cons.IH) simp
  then show ?case
    using sims best by (simp add: Let_def)
qed

lemma example_anchors_wellformed:
  "\<forall>cat \<in> set example_anchors. ce_embeddings cat \<noteq> []
     \<and> (\<forall>e \<in> set (ce_embeddings cat). length (le_embedding e) = length [1, 1, 1, 1 :: real])"
  by (simp add: example_anchors_def LABEL_DEFINITIONS_def)

lemma embed_example:
  "embed_chunks example_ai example_items 0 [] (map ld_labels LABEL_DEFINITIONS) =
     (Inr [Some [1, 1, 1, 1], None, Some [1, 1]],
      map ld_labels LABEL_DEFINITIONS @ [[''site is down'', '''', ''?'']])"
  by (simp add: embed_chunks.simps example_items_def example_ai_def slice_def chunkSize_def
      LABEL_DEFINITIONS_def)

lemma example_positions:
  "classified_positions example_anchors [Some [1, 1, 1, 1], None, Some [1, 1]] 0 3 = [0]"
  "failed_positions example_anchors [Some [1, 1, 1, 1], None, Some [1, 1]] 0 3 = [1, 2]"
proof -
  let ?embs = "[Some [1, 1, 1, 1], None, Some [1, 1]] :: vec option list"
  have c0: "classification_of example_anchors ?embs 0 \<noteq> None"
    using classify_categories_total [OF example_anchors_wellformed, of Map.empty]
    by (auto simp: classification_of_def js_index_def)
  have c1: "classification_of example_anchors ?embs 1 = None"
    by (simp add: classification_of_def js_index_def)
  have "cosineSimilarity [1, 1] [1, 0, 0, 0] = Inl (Error ''Vectors must have the same length'')"
    by (simp add: cosineSimilarity_def)
  then have "\<exists>e. classify_categories [1, 1] example_anchors Map.empty = Inl e"
    by (simp add: example_anchors_def LABEL_DEFINITIONS_def similarities_of_def)
  then have c2: "classification_of example_anchors ?embs 2 = None"
    by (auto simp: classification_of_def js_index_def)
  have upt: "[0..<3] = [0, 1, 2]"
    by (simp add: upt_rec)
  show "classified_positions example_anchors ?embs 0 3 = [0]"
    using c0 c1 c2 by (simp add: classified_positions_def upt)
  show "failed_positions example_anchors ?embs 0 3 = [1, 2]"
    using c0 c1 c2 by (simp add: failed_positions_def upt)
qed

theorem job_counts_partition_witness:
  "outcome (batchClassifyFeedback example_items example_db example_ai)
     = Inr \<lparr>classified = 1, failed = 2\<rparr>
   \<and> map feedback_id (rows (final_db (batchClassifyFeedback example_items example_db example_ai)))
     = [11]"
proof -
  let ?run = "batchClassifyFeedback example_items example_db example_ai"
  let ?embs = "[Some [1, 1, 1, 1], None, Some [1, 1]] :: vec option list"
  have len: "length example_items = 3"
    by (simp add: example_items_def)
  have accepts: "\<forall>stored batch. rejects example_db stored batch = None"
    by (simp add: example_db_def)
  note inst = job_counts_partition [OF precompute_example embed_example, of example_db]
  from inst accepts obtain counts where counts: "outcome ?run = Inr counts"
    by blast
  with inst have "classified counts = length (classified_positions example_anchors ?embs 0 3)"
    and "failed counts = length (failed_positions example_anchors ?embs 0 3)"
    and written: "rows (final_db ?run) = rows example_db
       @ map (\<lambda>j. batch_row (result_at example_anchors example_items ?embs j))
           (classified_positions example_anchors ?embs 0 3)"
    unfolding len by blast+
  then have "counts = \<lparr>classified = 1, failed = 2\<rparr>"
    by (simp add: example_positions)
  moreover have "map feedback_id (rows (final_db ?run)) = [11]"
    unfolding written
    by (simp add: example_positions example_db_def batch_row_def result_at_def example_items_def)
  ultimately show ?thesis
    using counts by simp
qed

section \<open>Properties of the embedding batcher\<close>

lemma chunks_of_Nil: "chunks_of n [] = []"
  by (simp add: chunks_of.simps)

lemma chunks_of_step:
  "0 < n \<Longrightarrow> xs \<noteq> [] \<Longrightarrow> chunks_of n xs = take n xs # chunks_of n (drop n xs)"
  by (subst chunks_of.simps) simp

lemma concat_chunks_of: "0 < n \<Longrightarrow> concat (chunks_of n xs) = xs"
proof (induction n xs rule: chunks_of.induct)
  case (1 n xs)
  show ?case
  proof (cases "xs = []")
    case True
    then show ?thesis by (simp add: chunks_of_Nil)
  next
    case False
    with 1 show ?thesis by (simp add: chunks_of_step)
  qed
qed

lemma chunks_of_sizes:
  "0 < n \<Longrightarrow> c \<in> set (chunks_of n xs) \<Longrightarrow> 0 < length c \<and> length c \<le> n"
proof (induction n xs rule: chunks_of.induct)
  case (1 n xs)
  show ?case
  proof (cases "xs = []")
    case True
    with "1.prems" show ?thesis by (simp add: chunks_of_Nil)
  next
    case False
    with "1.prems" have "c = take n xs \<or> c \<in> set (chunks_of n (drop n xs))"
      by (simp add: chunks_of_step)
    then show ?thesis
    proof
      assume "c = take n xs"
      with False "1.prems"(1) show ?thesis by (cases xs) auto
    next
      assume "c \<in> set (chunks_of n (drop n xs))"
      with 1 False show ?thesis by simp
    qed
  qed
qed

lemma chunks_of_full:
  "0 < n \<Longrightarrow> c \<in> set (butlast (chunks_of n xs)) \<Longrightarrow> length c = n"
proof (induction n xs rule: chunks_of.induct)
  case (1 n xs)
  show ?case
  proof (cases "xs = []")
    case True
    with "1.prems" show ?thesis by (simp add: chunks_of_Nil)
  next
    case False
    show ?thesis
    proof (cases "drop n xs = []")
      case True
      then have "chunks_of n xs = [take n xs]"
        using False "1.prems"(1) by (simp add: chunks_of_step chunks_of_Nil)
      with "1.prems" show ?thesis by simp
    next
      case more: False
      then have rest: "chunks_of n (drop n xs) \<noteq> []"
        using "1.prems"(1) by (simp add: chunks_of_step)
      have "n < length xs"
        using more by simp
      then have full: "length (take n xs) = n"
        by simp
      from "1.prems" False rest have "c = take n xs \<or> c \<in> set (butlast (chunks_of n (drop n xs)))"
        by (simp add: chunks_of_step)
      then show ?thesis
        using full "1.IH" [OF _ "1.prems"(1)] False "1.prems"(1) by auto
    qed
  qed
qed

lemma length_chunks_of: "0 < n \<Longrightarrow> length (chunks_of n xs) = (length xs + n - 1) div n"
proof (induction n xs rule: chunks_of.induct)
  case (1 n xs)
  show ?case
  proof (cases "xs = []")
    case True
    with "1.prems" show ?thesis by (simp add: chunks_of_Nil)
  next
    case False
    then have pos: "0 < length xs" by simp
    have "length (chunks_of n xs) = Suc ((length xs - n + n - 1) div n)"
      using 1 False by (simp add: chunks_of_step)
    also have "(length xs - n + n - 1) div n = (length xs - 1) div n"
    proof (cases "n \<le> length xs")
      case True
      then show ?thesis by simp
    next
      case False
      then show ?thesis using pos by simp
    qed
    also have "Suc ((length xs - 1) div n) = ((length xs - 1) + n) div n"
      using "1.prems" by simp
    also have "(length xs - 1) + n = length xs + n - 1"
      using pos by arith
    finally show ?thesis .
  qed
qed
lemma chunk_texts:
  "map fb_content (slice items i (i + chunkSize)) = take chunkSize (map fb_content (drop i items))"
  by (simp add: slice_take_drop take_map)

lemma embed_chunks_spec:
  "\<forall>k texts. \<exists>vectors. ai k texts = Inr vectors \<Longrightarrow>
   embed_chunks ai items i allEmbeddings calls =
     (Inr (allEmbeddings
             @ concat (answers ai (length calls)
                 (chunks_of chunkSize (map fb_content (drop i items))))),
      calls @ chunks_of chunkSize (map fb_content (drop i items)))"
proof (induction ai items i allEmbeddings calls rule: embed_chunks.induct)
  case (1 ai items i allEmbeddings calls)
  show ?case
  proof (cases "i < length items")
    case False
    then show ?thesis
      by (subst embed_chunks.simps) (simp add: chunks_of_Nil)
  next
    case inrange: True
    let ?texts = "map fb_content (drop i items)"
    let ?chunkTexts = "map fb_content (slice items i (i + chunkSize))"
    obtain chunkEmbeddings where call: "ai (length calls) ?chunkTexts = Inr chunkEmbeddings"
      using "1.prems" by blast
    have nonempty: "?texts \<noteq> []"
      using inrange by simp
    have "chunks_of chunkSize ?texts =
        take chunkSize ?texts # chunks_of chunkSize (drop chunkSize ?texts)"
      by (rule chunks_of_step [OF _ nonempty]) (simp add: chunkSize_def)
    moreover have "drop chunkSize ?texts = map fb_content (drop (i + chunkSize) items)"
      by (simp add: drop_map add.commute)
    ultimately have chunks: "chunks_of chunkSize ?texts =
        ?chunkTexts # chunks_of chunkSize (map fb_content (drop (i + chunkSize) items))"
      by (simp only: chunk_texts)
    have "embed_chunks ai items i allEmbeddings calls =
            embed_chunks ai items (i + chunkSize) (allEmbeddings @ chunkEmbeddings)
              (calls @ [?chunkTexts])"
      using inrange call by (subst embed_chunks.simps) (simp add: Let_def)
    also have "\<dots> = (Inr ((allEmbeddings @ chunkEmbeddings)
                   @ concat (answers ai (length (calls @ [?chunkTexts]))
                       (chunks_of chunkSize (map fb_content (drop (i + chunkSize) items))))),
            (calls @ [?chunkTexts])
              @ chunks_of chunkSize (map fb_content (drop (i + chunkSize) items)))"
      using "1.IH" [OF inrange refl refl call "1.prems"] .
    finally show ?thesis
      using call by (simp add: chunks)
  qed
qed

lemma answers_lengths:
  assumes "\<forall>k texts. \<exists>vectors. ai k texts = Inr vectors \<and> length vectors = length texts"
  shows "list_all2 (\<lambda>request answer. length answer = length request) requests (answers ai k requests)"
proof (induction requests arbitrary: k)
  case Nil
  then show ?case by simp
next
  case (Cons request requests)
  obtain vectors where "ai k request = Inr vectors" "length vectors = length request"
    using assms by blast
  then show ?case
    using Cons.IH by simp
qed

lemma chunked_positions:
  "0 < n
   \<Longrightarrow> list_all2 (\<lambda>chunk answer. length answer = length chunk) (chunks_of n xs) as
   \<Longrightarrow> i < length xs
   \<Longrightarrow> concat as ! i = as ! (i div n) ! (i mod n)
       \<and> chunks_of n xs ! (i div n) ! (i mod n) = xs ! i"
proof (induction n xs arbitrary: as i rule: chunks_of.induct)
  case (1 n xs)
  note pos = "1.prems"(1) and prems = "1.prems"(2,3)
  from prems(2) have nonempty: "xs \<noteq> []"
    by auto
  have chunks: "chunks_of n xs = take n xs # chunks_of n (drop n xs)"
    using chunks_of_step [OF pos nonempty] .
  from prems(1) obtain a as' where
    as: "as = a # as'" "length a = length (take n xs)"
      "list_all2 (\<lambda>chunk answer. length answer = length chunk) (chunks_of n (drop n xs)) as'"
    unfolding chunks by (auto simp: list_all2_Cons1)
  show ?case
  proof (cases "i < n")
    case True
    then have "i < length a"
      using as(2) prems(2) by simp
    then show ?thesis
      using True by (simp add: as(1) chunks nth_append)
  next
    case False
    then have full: "length a = n"
      using as(2) prems(2) by simp
    have rest: "i - n < length (drop n xs)"
      using False prems(2) by simp
    have "\<not> (n = 0 \<or> xs = [])"
      using pos nonempty by simp
    from "1.IH" [OF this pos as(3) rest]
    have ih: "concat as' ! (i - n) = as' ! ((i - n) div n) ! ((i - n) mod n)"
      "chunks_of n (drop n xs) ! ((i - n) div n) ! ((i - n) mod n) = drop n xs ! (i - n)"
      by simp_all
    have d: "i div n = Suc ((i - n) div n)"
      using False pos by (simp add: le_div_geq)
    have m: "i mod n = (i - n) mod n"
      using False by (simp add: le_mod_geq)
    have "concat as ! i = concat as' ! (i - n)"
      using False full by (simp add: as(1) nth_append)
    moreover have "drop n xs ! (i - n) = xs ! i"
      using False prems(2) by simp
    ultimately show ?thesis
      using ih by (simp add: as(1) chunks d m)
  qed
qed

lemma chunks_of_250:
  assumes "length xs = 250"
  shows "map length (chunks_of 100 xs) = [100, 100, 50]"
proof -
  have d2: "drop 100 (drop 100 xs) = drop 200 xs" and d3: "drop 100 (drop 200 xs) = drop 300 xs"
    by simp_all
  have c1: "chunks_of 100 xs = take 100 xs # chunks_of 100 (drop 100 xs)"
    using assms by (intro chunks_of_step) auto
  have "chunks_of 100 (drop 100 xs)
          = take 100 (drop 100 xs) # chunks_of 100 (drop 100 (drop 100 xs))"
    using assms by (intro chunks_of_step) auto
  then have c2: "chunks_of 100 (drop 100 xs)
      = take 100 (drop 100 xs) # chunks_of 100 (drop 200 xs)"
    by (simp only: d2)
  have "chunks_of 100 (drop 200 xs)
          = take 100 (drop 200 xs) # chunks_of 100 (drop 100 (drop 200 xs))"
    using assms by (intro chunks_of_step) auto
  then have c3: "chunks_of 100 (drop 200 xs)
      = take 100 (drop 200 xs) # chunks_of 100 (drop 300 xs)"
    by (simp only: d3)
  have c4: "chunks_of 100 (drop 300 xs) = []"
    using assms by (simp add: chunks_of_Nil)
  have "map length (chunks_of 100 xs)
          = [length (take 100 xs), length (take 100 (drop 100 xs)), length (take 100 (drop 200 xs))]"
    by (simp only: c1 c2 c3 c4 list.map)
  then show ?thesis
    using assms by simp
qed

text \<open>
  Claim C5. For every input list, when the embedding service answers every request with
  one vector per text, the batcher requests the texts of the consecutive chunks of size
  100 (all full except possibly the last, none empty), one request per chunk in input
  order, and returns the concatenation of the answers: one vector per item, the vector at
  position \<open>i\<close> being the answer to the text of item \<open>i\<close>. An input of 250 items makes
  three requests, of 100, 100 and 50 texts.
\<close>

theorem embedding_batches:
  assumes "\<forall>k texts. \<exists>vectors. ai k texts = Inr vectors \<and> length vectors = length texts"
  shows "\<exists>requests vectors.
           embed_chunks ai items 0 [] calls = (Inr vectors, calls @ requests)
           \<and> requests = chunks_of 100 (map fb_content items)
           \<and> concat requests = map fb_content items
           \<and> (\<forall>c \<in> set (butlast requests). length c = 100)
           \<and> (\<forall>c \<in> set requests. 0 < length c \<and> length c \<le> 100)
           \<and> length requests = (length items + 99) div 100
           \<and> vectors = concat (answers ai (length calls) requests)
           \<and> length vectors = length items
           \<and> (\<forall>i < length items.
                 vectors ! i = answers ai (length calls) requests ! (i div 100) ! (i mod 100)
                 \<and> requests ! (i div 100) ! (i mod 100) = fb_content (items ! i))
           \<and> (length items = 250 \<longrightarrow> map length requests = [100, 100, 50])"
proof -
  let ?requests = "chunks_of 100 (map fb_content items)"
  let ?answers = "answers ai (length calls) ?requests"
  let ?vectors = "concat ?answers"
  have ok: "\<forall>k texts. \<exists>vectors. ai k texts = Inr vectors"
    using assms by blast
  have run: "embed_chunks ai items 0 [] calls = (Inr ?vectors, calls @ ?requests)"
    using embed_chunks_spec [OF ok, of items 0 "[]" calls] by (simp add: chunkSize_def)
  have whole: "concat ?requests = map fb_content items"
    by (simp add: concat_chunks_of)
  have full: "\<forall>c \<in> set (butlast ?requests). length c = 100"
    using chunks_of_full [of 100 _ "map fb_content items"] by simp
  have sizes: "\<forall>c \<in> set ?requests. 0 < length c \<and> length c \<le> 100"
    using chunks_of_sizes [of 100 _ "map fb_content items"] by simp
  have number: "length ?requests = (length items + 99) div 100"
    by (simp add: length_chunks_of)
  have lens: "list_all2 (\<lambda>request answer. length answer = length request) ?requests ?answers"
    by (rule answers_lengths [OF assms])
  have "map length ?answers = map length ?requests"
    using lens by (induction rule: list_all2_induct) simp_all
  then have "length ?vectors = length (concat ?requests)"
    by (simp add: length_concat)
  then have total: "length ?vectors = length items"
    by (simp add: whole)
  have pos: "\<forall>i < length items.
      ?vectors ! i = ?answers ! (i div 100) ! (i mod 100)
      \<and> ?requests ! (i div 100) ! (i mod 100) = fb_content (items ! i)"
  proof (intro allI impI)
    fix i assume i: "i < length items"
    then have "i < length (map fb_content items)"
      by simp
    from chunked_positions [OF _ lens this]
    show "?vectors ! i = ?answers ! (i div 100) ! (i mod 100)
      \<and> ?requests ! (i div 100) ! (i mod 100) = fb_content (items ! i)"
      using i by simp
  qed
  have example: "length items = 250 \<longrightarrow> map length ?requests = [100, 100, 50]"
    by (simp add: chunks_of_250)
  show ?thesis
  proof (intro exI conjI)
    show "embed_chunks ai items 0 [] calls = (Inr ?vectors, calls @ ?requests)"
      by (rule run)
    show "?requests = chunks_of 100 (map fb_content items)" and "?vectors = concat ?answers"
      by (rule refl)+
  qed (use whole full sizes number total pos example in blast)+
qed

theorem embedding_batches_witness:
  "map length (snd (embed_chunks example_ai example_250 0 [] [])) = [100, 100, 50]
   \<and> (\<exists>vectors. fst (embed_chunks example_ai example_250 0 [] []) = Inr vectors
         \<and> length vectors = 250)"
proof -
  have answers: "\<forall>k texts. \<exists>vectors. example_ai k texts = Inr vectors
      \<and> length vectors = length texts"
    by (simp add: example_ai_def)
  have len: "length example_250 = 250"
    by (simp add: example_250_def)
  from embedding_batches [OF answers, of example_250 "[]"] show ?thesis
  proof (elim exE conjE)
    fix requests vectors
    assume run: "embed_chunks example_ai example_250 0 [] [] = (Inr vectors, [] @ requests)"
      and total: "length vectors = length example_250"
      and sizes: "length example_250 = 250 \<longrightarrow> map length requests = [100, 100, 50]"
    have "map length requests = [100, 100, 50]"
      using sizes len by (rule mp)
    moreover have "length vectors = 250"
      using total len by (rule trans)
    ultimately show ?thesis
      by (simp add: run)
  qed
qed

section \<open>Properties of the anchor precomputation\<close>

lemma precompute_loop_calls:
  "precompute_loop ai defs acc calls = (r, calls') \<Longrightarrow>
     \<exists>m \<le> length defs. calls' = calls @ map ld_labels (take m defs)
       \<and> (case r of Inl error \<Rightarrow> True | Inr out \<Rightarrow> length out = length acc + length defs)"
proof (induction defs arbitrary: acc calls)
  case Nil
  then show ?case by auto
next
  case (Cons labelDef rest)
  show ?case
  proof (cases "ai (length calls) (ld_labels labelDef)")
    case (Inl error)
    with Cons.prems have "r = Inl error" "calls' = calls @ [ld_labels labelDef]"
      by simp_all
    then show ?thesis
      by (intro exI [of _ 1]) simp
  next
    case call: (Inr embeddingData)
    show ?thesis
    proof (cases "bind_labels (ld_labels labelDef) 0 embeddingData")
      case (Inl error)
      with call Cons.prems have "r = Inl error" "calls' = calls @ [ld_labels labelDef]"
        by simp_all
      then show ?thesis
        by (intro exI [of _ 1]) simp
    next
      case (Inr embeddings)
      with call Cons.prems have "precompute_loop ai rest
          (acc @ [\<lparr>ce_category = ld_category labelDef, ce_embeddings = embeddings\<rparr>])
          (calls @ [ld_labels labelDef]) = (r, calls')"
        by simp
      from Cons.IH [OF this] obtain m where m: "m \<le> length rest"
        "calls' = (calls @ [ld_labels labelDef]) @ map ld_labels (take m rest)"
        "case r of Inl error \<Rightarrow> True
         | Inr out \<Rightarrow> length out =
             length (acc @ [\<lparr>ce_category = ld_category labelDef, ce_embeddings = embeddings\<rparr>])
               + length rest"
        by blast
      show ?thesis
        using m by (intro exI [of _ "Suc m"]) (simp split: sum.splits)
    qed
  qed
qed

lemma precompute_loop_first_failure:
  assumes "j < length defs"
    and "ai (length calls + j) (ld_labels (defs ! j)) = Inl error"
    and "\<forall>i < j. \<exists>embeddingData embeddings.
           ai (length calls + i) (ld_labels (defs ! i)) = Inr embeddingData
           \<and> bind_labels (ld_labels (defs ! i)) 0 embeddingData = Inr embeddings"
  shows "precompute_loop ai defs acc calls = (Inl error, calls @ map ld_labels (take (Suc j) defs))"
  using assms
proof (induction defs arbitrary: acc calls j)
  case Nil
  then show ?case by simp
next
  case (Cons labelDef rest)
  show ?case
  proof (cases j)
    case 0
    with Cons.prems show ?thesis by simp
  next
    case (Suc j')
    from Cons.prems(3) Suc obtain embeddingData embeddings where
      first: "ai (length calls) (ld_labels labelDef) = Inr embeddingData"
        "bind_labels (ld_labels labelDef) 0 embeddingData = Inr embeddings"
      by fastforce
    have len: "j' < length rest"
      using Cons.prems(1) Suc by simp
    have fails: "ai (length (calls @ [ld_labels labelDef]) + j') (ld_labels (rest ! j')) = Inl error"
      using Cons.prems(2) Suc by simp
    have before: "\<forall>i < j'. \<exists>embeddingData embeddings.
        ai (length (calls @ [ld_labels labelDef]) + i) (ld_labels (rest ! i)) = Inr embeddingData
        \<and> bind_labels (ld_labels (rest ! i)) 0 embeddingData = Inr embeddings"
    proof (intro allI impI)
      fix i assume "i < j'"
      then have "Suc i < j" using Suc by simp
      with Cons.prems(3) show "\<exists>embeddingData embeddings.
        ai (length (calls @ [ld_labels labelDef]) + i) (ld_labels (rest ! i)) = Inr embeddingData
        \<and> bind_labels (ld_labels (rest ! i)) 0 embeddingData = Inr embeddings"
        by fastforce
    qed
    from Cons.IH [OF len fails before]
    show ?thesis
      using first Suc by simp
  qed
qed

lemma precompute_loop_some_failure:
  assumes "j < length defs"
    and "ai (length calls + j) (ld_labels (defs ! j)) = Inl error"
  shows "\<exists>error'. fst (precompute_loop ai defs acc calls) = Inl error'"
  using assms
proof (induction defs arbitrary: acc calls j)
  case Nil
  then show ?case by simp
next
  case (Cons labelDef rest)
  show ?case
  proof (cases j)
    case 0
    with Cons.prems show ?thesis by simp
  next
    case (Suc j')
    have len: "j' < length rest"
      using Cons.prems(1) Suc by simp
    have fails: "ai (length (calls @ [ld_labels labelDef]) + j') (ld_labels (rest ! j')) = Inl error"
      using Cons.prems(2) Suc by simp
    note ih = Cons.IH [OF len fails]
    show ?thesis
      using ih by (auto split: sum.splits)
  qed
qed

lemma job_aborts_on_anchor_error:
  assumes "precomputeLabelEmbeddings ai [] = (Inl error, calls')"
  shows "batchClassifyFeedback items db ai =
           \<lparr>outcome = Inl error, final_db = db, ai_calls = calls'\<rparr>"
  using assms by (simp add: batchClassifyFeedback_def)

text \<open>
  Claim C7. When the embedding call for one of the five categories throws, the error
  leaves \<open>precomputeLabelEmbeddings\<close> and the whole job: the job's result is an error,
  the database is as it was, and the only requests made to the embedding service are
  anchor requests, so no item has been embedded or classified. When that call is the
  first part of the precomputation to fail, the job's error is the error of that call and
  the requests made are those up to that category. Anchors that are returned always cover
  all five categories.
\<close>

theorem anchor_failure_aborts_job:
  assumes "j < length LABEL_DEFINITIONS"
    and "ai j (ld_labels (LABEL_DEFINITIONS ! j)) = Inl error"
  shows "(\<exists>error' m. m \<le> length LABEL_DEFINITIONS
            \<and> fst (precomputeLabelEmbeddings ai []) = Inl error'
            \<and> batchClassifyFeedback items db ai =
                \<lparr>outcome = Inl error', final_db = db,
                 ai_calls = map ld_labels (take m LABEL_DEFINITIONS)\<rparr>)
         \<and> ((\<forall>i < j. \<exists>embeddingData embeddings.
                ai i (ld_labels (LABEL_DEFINITIONS ! i)) = Inr embeddingData
                \<and> bind_labels (ld_labels (LABEL_DEFINITIONS ! i)) 0 embeddingData = Inr embeddings)
              \<longrightarrow> precomputeLabelEmbeddings ai [] =
                    (Inl error, map ld_labels (take (Suc j) LABEL_DEFINITIONS))
                  \<and> batchClassifyFeedback items db ai =
                      \<lparr>outcome = Inl error, final_db = db,
                       ai_calls = map ld_labels (take (Suc j) LABEL_DEFINITIONS)\<rparr>)
         \<and> (\<forall>ai' out calls'. precomputeLabelEmbeddings ai' [] = (Inr out, calls')
               \<longrightarrow> length out = length LABEL_DEFINITIONS)"
proof -
  obtain r calls' where pre: "precomputeLabelEmbeddings ai [] = (r, calls')"
    by (cases "precomputeLabelEmbeddings ai []") auto
  from precompute_loop_some_failure [of j LABEL_DEFINITIONS ai "[]" error "[]"] assms
  obtain error' where err: "r = Inl error'"
    using pre by (auto simp: precomputeLabelEmbeddings_def)
  from precompute_loop_calls [OF pre [unfolded precomputeLabelEmbeddings_def]]
  obtain m where m: "m \<le> length LABEL_DEFINITIONS"
    "calls' = map ld_labels (take m LABEL_DEFINITIONS)"
    by auto
  have general: "\<exists>error' m. m \<le> length LABEL_DEFINITIONS
      \<and> fst (precomputeLabelEmbeddings ai []) = Inl error'
      \<and> batchClassifyFeedback items db ai =
          \<lparr>outcome = Inl error', final_db = db,
           ai_calls = map ld_labels (take m LABEL_DEFINITIONS)\<rparr>"
    using job_aborts_on_anchor_error [OF pre [unfolded err]] m pre err
    by (intro exI [of _ error'] exI [of _ m]) simp
  have first: "(\<forall>i < j. \<exists>embeddingData embeddings.
        ai i (ld_labels (LABEL_DEFINITIONS ! i)) = Inr embeddingData
        \<and> bind_labels (ld_labels (LABEL_DEFINITIONS ! i)) 0 embeddingData = Inr embeddings)
      \<longrightarrow> precomputeLabelEmbeddings ai [] =
            (Inl error, map ld_labels (take (Suc j) LABEL_DEFINITIONS))
          \<and> batchClassifyFeedback items db ai =
              \<lparr>outcome = Inl error, final_db = db,
               ai_calls = map ld_labels (take (Suc j) LABEL_DEFINITIONS)\<rparr>"
  proof
    assume before: "\<forall>i < j. \<exists>embeddingData embeddings.
        ai i (ld_labels (LABEL_DEFINITIONS ! i)) = Inr embeddingData
        \<and> bind_labels (ld_labels (LABEL_DEFINITIONS ! i)) 0 embeddingData = Inr embeddings"
    have "precompute_loop ai LABEL_DEFINITIONS [] [] =
        (Inl error, [] @ map ld_labels (take (Suc j) LABEL_DEFINITIONS))"
      using assms before by (intro precompute_loop_first_failure) simp_all
    then have p: "precomputeLabelEmbeddings ai [] =
        (Inl error, map ld_labels (take (Suc j) LABEL_DEFINITIONS))"
      by (simp add: precomputeLabelEmbeddings_def)
    with job_aborts_on_anchor_error [OF p]
    show "precomputeLabelEmbeddings ai [] =
            (Inl error, map ld_labels (take (Suc j) LABEL_DEFINITIONS))
          \<and> batchClassifyFeedback items db ai =
              \<lparr>outcome = Inl error, final_db = db,
               ai_calls = map ld_labels (take (Suc j) LABEL_DEFINITIONS)\<rparr>"
      by simp
  qed
  have complete: "\<forall>ai' out calls'. precomputeLabelEmbeddings ai' [] = (Inr out, calls')
      \<longrightarrow> length out = length LABEL_DEFINITIONS"
  proof (intro allI impI)
    fix ai' out calls''
    assume "precomputeLabelEmbeddings ai' [] = (Inr out, calls'')"
    from precompute_loop_calls [OF this [unfolded precomputeLabelEmbeddings_def]]
    show "length out = length LABEL_DEFINITIONS"
      by auto
  qed
  from general first complete show ?thesis
    by (intro conjI)
qed

theorem anchor_failure_aborts_job_witness:
  "batchClassifyFeedback example_items example_db failing_ai =
     \<lparr>outcome = Inl (Error ''embedding service unavailable''), final_db = example_db,
      ai_calls = map ld_labels (take 3 LABEL_DEFINITIONS)\<rparr>"
proof -
  have len: "2 < length LABEL_DEFINITIONS"
    by (simp add: LABEL_DEFINITIONS_def)
  have fails: "failing_ai 2 (ld_labels (LABEL_DEFINITIONS ! 2)) =
      Inl (Error ''embedding service unavailable'')"
    by (simp add: failing_ai_def)
  have ok: "\<exists>embeddingData embeddings.
      failing_ai i (ld_labels (LABEL_DEFINITIONS ! i)) = Inr embeddingData
      \<and> bind_labels (ld_labels (LABEL_DEFINITIONS ! i)) 0 embeddingData = Inr embeddings"
    if "i = 0 \<or> i = 1" for i
    using that
    by (auto simp: failing_ai_def example_ai_def LABEL_DEFINITIONS_def js_index_def)
  have before: "\<forall>i < 2. \<exists>embeddingData embeddings.
      failing_ai i (ld_labels (LABEL_DEFINITIONS ! i)) = Inr embeddingData
      \<and> bind_labels (ld_labels (LABEL_DEFINITIONS ! i)) 0 embeddingData = Inr embeddings"
  proof (intro allI impI)
    fix i :: nat assume "i < 2"
    then have "i = 0 \<or> i = 1" by auto
    then show "\<exists>embeddingData embeddings.
      failing_ai i (ld_labels (LABEL_DEFINITIONS ! i)) = Inr embeddingData
      \<and> bind_labels (ld_labels (LABEL_DEFINITIONS ! i)) 0 embeddingData = Inr embeddings"
      by (rule ok)
  qed
  have three: "Suc 2 = 3"
    by simp
  from anchor_failure_aborts_job [of 2 failing_ai "Error ''embedding service unavailable''"
      example_items example_db, OF len fails] before
  show ?thesis
    by (simp only: three)
qed

section \<open>Properties of the urgency downgrade\<close>

lemma example_classified:
  "classify_categories [1, 1, 1, 1] example_anchors Map.empty = Inr example_classification"
  by (simp add: example_anchors_def LABEL_DEFINITIONS_def similarities_of_def
      cosineSimilarity_example bestMatch_of_def reduce1_def extractLabelName_def
      example_classification_def)

lemma example_row_built:
  "batch_row \<lparr>br_id = 11, br_classifications = example_classification\<rparr> = example_row"
  by (simp add: batch_row_def example_classification_def example_row_def
      or_null_string_def or_null_number_def)

lemma example_run:
  "batchClassifyFeedback example_items example_db example_ai =
     \<lparr>outcome = Inr \<lparr>classified = 1, failed = 2\<rparr>,
      final_db = example_db\<lparr>rows := [example_row]\<rparr>,
      ai_calls = map ld_labels LABEL_DEFINITIONS @ [[''site is down'', '''', ''?'']]\<rparr>"
proof -
  let ?embs = "[Some [1, 1, 1, 1], None, Some [1, 1]] :: vec option list"
  have len: "length example_items = 3"
    by (simp add: example_items_def)
  have "classification_of example_anchors ?embs 0 = Some example_classification"
    by (simp add: classification_of_def js_index_def example_classified)
  then have res: "result_at example_anchors example_items ?embs 0 =
      \<lparr>br_id = 11, br_classifications = example_classification\<rparr>"
    by (simp add: result_at_def example_items_def)
  have save: "save_loop example_db
      (map (result_at example_anchors example_items ?embs)
         (classified_positions example_anchors ?embs 0 (length example_items))) 0 =
      (None, example_db\<lparr>rows := [example_row]\<rparr>)"
    unfolding len example_positions
    by (simp add: res save_loop.simps slice_def saveChunkSize_def db_batch_def example_db_def
        example_row_built)
  show ?thesis
    using batchClassifyFeedback_run [OF precompute_example embed_example save]
    by (simp add: len example_positions)
qed

text \<open>
  The claim as the specification states it fails on the write path: the job stores the raw
  label. For the item \<open>site is down\<close>, whose raw urgency is \<open>critical\<close> with confidence
  exactly 0.5, the row written has the urgency \<open>critical\<close>.
\<close>

theorem raw_critical_persisted_counterexample:
  "rows (final_db (batchClassifyFeedback example_items example_db example_ai)) = [example_row]
   \<and> urgency example_row = Some ''critical''
   \<and> urgency_confidence example_row = Some (1 / 2)
   \<and> (1 / 2 :: real) \<le> 0.50"
  by (simp add: example_run example_row_def)

lemma sql_holds_and:
  "sql_holds (sql_and p q) = (sql_holds p \<and> sql_holds q)"
  by (auto simp: sql_holds_def sql_and_def)

lemma sql_holds_or:
  "sql_holds (sql_or p q) = (sql_holds p \<or> sql_holds q)"
  by (auto simp: sql_holds_def sql_or_def)

lemma sql_holds_cmp:
  "sql_holds (sql_eq x v) = (x = Some v)"
  "sql_holds (sql_gt y t) = (\<exists>c. y = Some c \<and> c > t)"
  "sql_holds (sql_le y t) = (\<exists>c. y = Some c \<and> c \<le> t)"
  by (cases x; cases y; auto simp: sql_holds_def sql_eq_def sql_gt_def sql_le_def)+

lemma read_path_rule:
  "reported_urgency row =
     (if urgency row = Some ''critical''
      then (case urgency_confidence row of
              Some c \<Rightarrow> if c > 0.5 then Some ''critical'' else Some ''high''
            | None \<Rightarrow> Some ''high'')
      else urgency row)"
  by (auto simp: reported_urgency_def sql_holds_and sql_holds_cmp split: option.splits)

lemma metrics_rule:
  "counts_as_critical row = (reported_urgency row = Some ''critical'')"
  "urgency_confidence row \<noteq> None \<or> urgency row \<noteq> Some ''critical''
     \<Longrightarrow> counts_as_high row = (reported_urgency row = Some ''high'')"
  "(importance_rank row = 3) = (reported_urgency row = Some ''critical'')"
  "urgency_confidence row \<noteq> None \<or> urgency row \<noteq> Some ''critical''
     \<Longrightarrow> (importance_rank row = 2) = (reported_urgency row = Some ''high'')"
  by (auto simp: counts_as_critical_def counts_as_high_def importance_rank_def read_path_rule
      sql_holds_and sql_holds_or sql_holds_cmp split: option.splits)

lemma count_queries:
  "criticalCount_query joined =
     int (length (filter (\<lambda>row. reported_urgency row = Some ''critical'') joined))"
  "(\<forall>row \<in> set joined. urgency_confidence row \<noteq> None \<or> urgency row \<noteq> Some ''critical'')
     \<Longrightarrow> highCount_query joined =
           int (length (filter (\<lambda>row. reported_urgency row = Some ''high'') joined))"
proof -
  have "filter counts_as_critical joined
          = filter (\<lambda>row. reported_urgency row = Some ''critical'') joined"
    by (rule filter_cong) (simp_all add: metrics_rule(1))
  then show "criticalCount_query joined =
     int (length (filter (\<lambda>row. reported_urgency row = Some ''critical'') joined))"
    by (simp add: criticalCount_query_def)
next
  assume "\<forall>row \<in> set joined. urgency_confidence row \<noteq> None \<or> urgency row \<noteq> Some ''critical''"
  then have "filter counts_as_high joined
          = filter (\<lambda>row. reported_urgency row = Some ''high'') joined"
    by (intro filter_cong refl metrics_rule(2)) blast
  then show "highCount_query joined =
     int (length (filter (\<lambda>row. reported_urgency row = Some ''high'') joined))"
    by (simp add: highCount_query_def)
qed

lemma saved_row:
  assumes "saveClassifications db fid cls notes = Inr (db\<lparr>rows := rows db @ [row]\<rparr>)"
  shows "row = batch_row \<lparr>br_id = fid, br_classifications = cls\<rparr>"
proof -
  let ?built = "batch_row \<lparr>br_id = fid, br_classifications = cls\<rparr>"
  have "saveClassifications db fid cls notes = db_batch db [?built]"
    by (simp add: saveClassifications_def batch_row_def Let_def)
  with assms have "db_batch db [?built] = Inr (db\<lparr>rows := rows db @ [row]\<rparr>)"
    by simp
  then have "db\<lparr>rows := rows db @ [?built]\<rparr> = db\<lparr>rows := rows db @ [row]\<rparr>"
    by (auto simp: db_batch_def split: option.splits)
  then have "rows (db\<lparr>rows := rows db @ [?built]\<rparr>) = rows (db\<lparr>rows := rows db @ [row]\<rparr>)"
    by (rule arg_cong)
  then show ?thesis
    by simp
qed

text \<open>
  Claim C1, amended. Both write paths persist the raw urgency: a raw \<open>critical\<close> is stored
  as \<open>critical\<close> with its confidence, whatever the confidence. The downgrade is applied
  when urgency is read back. The read/query path (\<open>getFeedback\<close>, \<open>getFeedbackById\<close>)
  reports the stored row as \<open>critical\<close> if and only if the confidence is above 0.50 and as
  \<open>high\<close> otherwise, so exactly 0.50 yields \<open>high\<close>. The metrics aggregation of the
  executive summary (the critical and high counts of \<open>prepareMetricsForSummary\<close>) counts
  the row as critical under the same condition and, for a confidence other than 0 (which is
  stored as \<open>NULL\<close>), as high under the same condition. On every stored row these two
  counts and the importance order of \<open>getFeedback\<close> agree with the read path, the high
  count when the stored confidence is not \<open>NULL\<close>: the critical count is the number of rows
  the read path reports as \<open>critical\<close>, and the high count is the number of rows it
  reports as \<open>high\<close> when no \<open>critical\<close> row has a \<open>NULL\<close> confidence.
\<close>

theorem urgency_downgrade_on_read:
  assumes "cls ''urgency'' = Some r" and "cr_label r = ''critical''"
    and "row = batch_row \<lparr>br_id = fid, br_classifications = cls\<rparr>
         \<or> saveClassifications db fid cls notes = Inr (db\<lparr>rows := rows db @ [row]\<rparr>)"
  shows "urgency row = Some ''critical''
         \<and> urgency_confidence row = (if cr_confidence r = 0 then None else Some (cr_confidence r))
         \<and> reported_urgency row = Some (if cr_confidence r > 0.50 then ''critical'' else ''high'')
         \<and> (counts_as_critical row \<longleftrightarrow> cr_confidence r > 0.50)
         \<and> (cr_confidence r \<noteq> 0 \<longrightarrow> (counts_as_high row \<longleftrightarrow> cr_confidence r \<le> 0.50))
         \<and> (counts_as_critical stored \<longleftrightarrow> reported_urgency stored = Some ''critical'')
         \<and> (importance_rank stored = 3 \<longleftrightarrow> reported_urgency stored = Some ''critical'')
         \<and> (urgency_confidence stored \<noteq> None \<or> urgency stored \<noteq> Some ''critical'' \<longrightarrow>
               (counts_as_high stored \<longleftrightarrow> reported_urgency stored = Some ''high'')
               \<and> (importance_rank stored = 2 \<longleftrightarrow> reported_urgency stored = Some ''high''))
         \<and> criticalCount_query joined =
             int (length (filter (\<lambda>row. reported_urgency row = Some ''critical'') joined))
         \<and> ((\<forall>row \<in> set joined.
                 urgency_confidence row \<noteq> None \<or> urgency row \<noteq> Some ''critical'') \<longrightarrow>
               highCount_query joined =
                 int (length (filter (\<lambda>row. reported_urgency row = Some ''high'') joined)))"
proof -
  have row: "row = batch_row \<lparr>br_id = fid, br_classifications = cls\<rparr>"
    using assms(3) saved_row by blast
  have u: "urgency row = Some ''critical''"
    using assms(1,2) by (simp add: row batch_row_def or_null_string_def)
  have c: "urgency_confidence row = (if cr_confidence r = 0 then None else Some (cr_confidence r))"
    using assms(1) by (simp add: row batch_row_def or_null_number_def)
  have reported: "reported_urgency row = Some (if cr_confidence r > 0.50 then ''critical'' else ''high'')"
    by (simp add: read_path_rule u c)
  have critical: "counts_as_critical row \<longleftrightarrow> cr_confidence r > 0.50"
    by (simp add: metrics_rule(1) reported)
  have high: "cr_confidence r \<noteq> 0 \<longrightarrow> (counts_as_high row \<longleftrightarrow> cr_confidence r \<le> 0.50)"
  proof
    assume "cr_confidence r \<noteq> 0"
    then have "urgency_confidence row \<noteq> None"
      by (simp add: c)
    then have "counts_as_high row = (reported_urgency row = Some ''high'')"
      by (intro metrics_rule(2)) simp
    then show "counts_as_high row \<longleftrightarrow> cr_confidence r \<le> 0.50"
      by (auto simp: reported)
  qed
  have rows: "u \<and> c \<and> rep \<and> cr \<and> hi \<and> m1 \<and> m3 \<and> (p \<longrightarrow> m2 \<and> m4) \<and> q1 \<and> (h \<longrightarrow> q2)"
    if "u" "c" "rep" "cr" "hi" "m1" "p \<Longrightarrow> m2" "m3" "p \<Longrightarrow> m4" "q1" "h \<Longrightarrow> q2"
    for u c rep cr hi m1 m2 m3 m4 p q1 q2 h
    using that by blast
  show ?thesis
    by (rule rows [OF u c reported critical high metrics_rule [of stored] count_queries [of joined]])
qed

theorem urgency_downgrade_on_read_witness:
  "urgency (batch_row \<lparr>br_id = 7, br_classifications = example_classifications\<rparr>) = Some ''critical''
   \<and> urgency_confidence (batch_row \<lparr>br_id = 7, br_classifications = example_classifications\<rparr>)
       = Some 0.5
   \<and> reported_urgency (batch_row \<lparr>br_id = 7, br_classifications = example_classifications\<rparr>)
       = Some ''high''
   \<and> \<not> counts_as_critical (batch_row \<lparr>br_id = 7, br_classifications = example_classifications\<rparr>)
   \<and> counts_as_high (batch_row \<lparr>br_id = 7, br_classifications = example_classifications\<rparr>)"
proof -
  let ?r = "\<lparr>cr_category = ''urgency'', cr_label = ''critical'', cr_confidence = 0.5\<rparr>"
  have raw: "example_classifications ''urgency'' = Some ?r"
    by (simp add: example_classifications_def)
  have label: "cr_label ?r = ''critical''"
    by simp
  have "batch_row \<lparr>br_id = 7, br_classifications = example_classifications\<rparr>
          = batch_row \<lparr>br_id = 7, br_classifications = example_classifications\<rparr>
        \<or> saveClassifications example_db 7 example_classifications None
            = Inr (example_db\<lparr>rows := rows example_db
                @ [batch_row \<lparr>br_id = 7, br_classifications = example_classifications\<rparr>]\<rparr>)"
    by simp
  from urgency_downgrade_on_read [OF raw label this]
  show ?thesis
    by simp
qed

section \<open>Properties of the refinement decision\<close>

lemma classifyFeedback_loop_round:
  "classifyFeedback_loop v (cat # rest) st =
     (case best_of v cat of
        None \<Rightarrow> classifyFeedback_loop v (cat # rest) st
      | Some b \<Rightarrow> classifyFeedback_loop v rest (after_round v cat b st))"
  by (cases st)
     (auto simp: best_of_def mixed_of_def after_round_def Let_def min_def
        split: sum.splits)

lemma classifyFeedback_loop_throws:
  "best_of v cat = None \<Longrightarrow> \<exists>error. classifyFeedback_loop v (cat # rest) st = Inl error"
  by (auto simp: best_of_def split: sum.splits)

lemma classifyFeedback_loop_spec:
  "classifyFeedback_loop v cats st = Inr st' \<Longrightarrow>
     (\<forall>cat \<in> set cats. best_of v cat \<noteq> None)
     \<and> lowestConfidence st' =
         Min (insert (lowestConfidence st) ((\<lambda>cat. sim_score (the (best_of v cat))) ` set cats))
     \<and> (hasCriticalUrgency st' \<longleftrightarrow>
           hasCriticalUrgency st
           \<or> (\<exists>cat \<in> set cats. ce_category cat = ''urgency''
                 \<and> startsWith (sim_label (the (best_of v cat))) ''critical''))
     \<and> (hasMixedSentiment st' \<longleftrightarrow>
           hasMixedSentiment st
           \<or> (\<exists>cat \<in> set cats. ce_category cat = ''polarity'' \<and> mixed_of v cat))
     \<and> (\<forall>name. name \<notin> ce_category ` set cats \<longrightarrow>
           rs_classifications st' name = rs_classifications st name)
     \<and> (distinct (map ce_category cats) \<longrightarrow>
           (\<forall>cat \<in> set cats.
              rs_classifications st' (ce_category cat) =
                Some \<lparr>cr_category = ce_category cat,
                      cr_label = extractLabelName (sim_label (the (best_of v cat))),
                      cr_confidence = sim_score (the (best_of v cat))\<rparr>))"
proof (induction cats arbitrary: st)
  case Nil
  then show ?case by simp
next
  case (Cons cat rest)
  obtain b where b: "best_of v cat = Some b"
    using Cons.prems classifyFeedback_loop_throws [of v cat rest st] by (cases "best_of v cat") auto
  let ?st1 = "after_round v cat b st"
  have rec: "classifyFeedback_loop v rest ?st1 = Inr st'"
    using Cons.prems b by (subst (asm) classifyFeedback_loop_round) simp
  note ih = Cons.IH [OF rec]
  have all: "\<forall>c \<in> set (cat # rest). best_of v c \<noteq> None"
    using ih b by simp
  have lowest: "lowestConfidence st' =
      Min (insert (lowestConfidence st)
             ((\<lambda>cat. sim_score (the (best_of v cat))) ` set (cat # rest)))"
  proof -
    let ?S = "(\<lambda>cat. sim_score (the (best_of v cat))) ` set rest"
    have "lowestConfidence st' = Min (insert (min (sim_score b) (lowestConfidence st)) ?S)"
      using ih by (simp add: after_round_def)
    also have "\<dots> = Min (insert (sim_score b) (insert (lowestConfidence st) ?S))"
      by (cases "?S = {}") (simp_all add: min.assoc)
    finally show ?thesis
      using b by (simp add: insert_commute)
  qed
  have critical: "hasCriticalUrgency st' \<longleftrightarrow>
      hasCriticalUrgency st
      \<or> (\<exists>c \<in> set (cat # rest). ce_category c = ''urgency''
            \<and> startsWith (sim_label (the (best_of v c))) ''critical'')"
    using ih b by (auto simp: after_round_def)
  have mixed: "hasMixedSentiment st' \<longleftrightarrow>
      hasMixedSentiment st
      \<or> (\<exists>c \<in> set (cat # rest). ce_category c = ''polarity'' \<and> mixed_of v c)"
    using ih by (auto simp: after_round_def)
  have others: "\<forall>name. name \<notin> ce_category ` set (cat # rest) \<longrightarrow>
      rs_classifications st' name = rs_classifications st name"
    using ih by (simp add: after_round_def)
  have stored: "distinct (map ce_category (cat # rest)) \<longrightarrow>
      (\<forall>c \<in> set (cat # rest).
         rs_classifications st' (ce_category c) =
           Some \<lparr>cr_category = ce_category c,
                 cr_label = extractLabelName (sim_label (the (best_of v c))),
                 cr_confidence = sim_score (the (best_of v c))\<rparr>)"
  proof (intro impI ballI)
    fix c assume d: "distinct (map ce_category (cat # rest))" and c: "c \<in> set (cat # rest)"
    show "rs_classifications st' (ce_category c) =
           Some \<lparr>cr_category = ce_category c,
                 cr_label = extractLabelName (sim_label (the (best_of v c))),
                 cr_confidence = sim_score (the (best_of v c))\<rparr>"
    proof (cases "c \<in> set rest")
      case True
      then show ?thesis using ih d by simp
    next
      case False
      then have "c = cat" using c by simp
      moreover have "ce_category cat \<notin> ce_category ` set rest"
        using d by simp
      ultimately show ?thesis
        using ih b by (simp add: after_round_def)
    qed
  qed
  from all lowest critical mixed others stored show ?case
    by (intro conjI)
qed
lemma descending_hd_Max:
  assumes "sorted (map uminus (y # ys))"
  shows "Max (set (y # ys)) = (y :: real)"
proof (rule Max_eqI)
  show "finite (set (y # ys))" by simp
  show "y \<in> set (y # ys)" by simp
  fix z assume "z \<in> set (y # ys)"
  then show "z \<le> y"
    using assms by auto
qed

lemma top_two_of_descending:
  fixes xs :: "real list"
  assumes "mset (y0 # y1 # ys) = mset xs" and "sorted (map uminus (y0 # y1 # ys))"
  shows "top_two_gap xs = \<bar>y0 - y1\<bar>"
proof -
  have "set xs = set (y0 # y1 # ys)"
    using assms(1) by (metis set_mset_mset)
  then have top: "Max (set xs) = y0"
    using descending_hd_Max [OF assms(2)] by simp
  have "mset (remove1 y0 xs) = mset xs - {#y0#}"
    by simp
  also have "\<dots> = mset (y1 # ys)"
    using assms(1) [symmetric] by simp
  finally have "set (remove1 y0 xs) = set (y1 # ys)"
    by (metis set_mset_mset)
  moreover have "sorted (map uminus (y1 # ys))"
    using assms(2) by simp
  ultimately have second: "Max (set (remove1 y0 xs)) = y1"
    using descending_hd_Max by simp
  have "y1 \<le> y0"
    using assms(2) by simp
  then show ?thesis
    by (simp add: top_two_gap_def top second)
qed

lemma sorted_by_score_desc:
  "mset (map sim_score (sort_by_score_desc sims)) = mset (map sim_score sims)"
  "sorted (map uminus (map sim_score (sort_by_score_desc sims)))"
proof -
  show "mset (map sim_score (sort_by_score_desc sims)) = mset (map sim_score sims)"
    by (simp add: sort_by_score_desc_def)
  have "map uminus (map sim_score (sort_by_score_desc sims))
          = map (\<lambda>s. - sim_score s) (sort_key (\<lambda>s. - sim_score s) sims)"
    by (simp add: sort_by_score_desc_def)
  then show "sorted (map uminus (map sim_score (sort_by_score_desc sims)))"
    by (simp only: sorted_sort_key)
qed

lemma mixed_of_gap:
  assumes "similarities_of v (ce_embeddings cat) = Inr sims" and "2 \<le> length sims"
  shows "mixed_of v cat \<longleftrightarrow> top_two_gap (map sim_score sims) < 0.15"
proof -
  let ?sorted = "sort_by_score_desc sims"
  have len: "length ?sorted = length sims"
    by (simp add: sort_by_score_desc_def)
  with assms(2) obtain s0 s1 rest where sorted: "?sorted = s0 # s1 # rest"
    by (cases ?sorted; cases "tl ?sorted") auto
  have "mset (sim_score s0 # sim_score s1 # map sim_score rest) = mset (map sim_score sims)"
    and "sorted (map uminus (sim_score s0 # sim_score s1 # map sim_score rest))"
    using sorted_by_score_desc [of sims] unfolding sorted by simp_all
  then have gap: "top_two_gap (map sim_score sims) = \<bar>sim_score s0 - sim_score s1\<bar>"
    by (rule top_two_of_descending)
  have "slice ?sorted 0 2 = [s0, s1]"
    by (simp add: slice_def sorted numeral_2_eq_2)
  then show ?thesis
    using assms(1) by (simp add: mixed_of_def gap)
qed

lemma label_texts_critical:
  "\<forall>l \<in> set all_label_texts. startsWith l ''critical'' \<longleftrightarrow> extractLabelName l = ''critical''"
  by (simp add: all_label_texts_def LABEL_DEFINITIONS_def extractLabelName_def startsWith_def)

lemma precompute_categories:
  assumes "precomputeLabelEmbeddings ai calls = (Inr labelEmbeddings, calls')"
  shows "map ce_category labelEmbeddings = category_names"
    and "\<forall>cat \<in> set labelEmbeddings. ce_category cat = ''polarity'' \<longrightarrow> length (ce_embeddings cat) = 3"
proof -
  from precompute_loop_shape [OF assms [unfolded precomputeLabelEmbeddings_def]]
  have shape: "list_all2 (\<lambda>d c. ce_category c = ld_category d
                  \<and> map le_label (ce_embeddings c) = ld_labels d) LABEL_DEFINITIONS labelEmbeddings"
    by simp
  then have len: "length labelEmbeddings = length LABEL_DEFINITIONS"
    by (simp add: list_all2_lengthD)
  show "map ce_category labelEmbeddings = category_names"
    unfolding category_names_def using shape
    by (intro nth_equalityI) (simp_all add: len list_all2_conv_all_nth)
  show "\<forall>cat \<in> set labelEmbeddings. ce_category cat = ''polarity'' \<longrightarrow> length (ce_embeddings cat) = 3"
  proof (intro ballI impI)
    fix cat assume "cat \<in> set labelEmbeddings" and pol: "ce_category cat = ''polarity''"
    then obtain n where n: "n < length labelEmbeddings" "labelEmbeddings ! n = cat"
      by (auto simp: in_set_conv_nth)
    with shape have d: "ld_category (LABEL_DEFINITIONS ! n) = ''polarity''"
      and l: "map le_label (ce_embeddings cat) = ld_labels (LABEL_DEFINITIONS ! n)"
      using pol by (auto simp: list_all2_conv_all_nth)
    have "\<forall>d \<in> set LABEL_DEFINITIONS. ld_category d = ''polarity'' \<longrightarrow> length (ld_labels d) = 3"
      by (simp add: LABEL_DEFINITIONS_def)
    then have "length (ld_labels (LABEL_DEFINITIONS ! n)) = 3"
      using d n(1) len by simp
    then show "length (ce_embeddings cat) = 3"
      using l by (metis length_map)
  qed
qed

lemma similarities_of_labels:
  "similarities_of v embeddings = Inr sims \<Longrightarrow> map sim_label sims = map le_label embeddings"
  unfolding similarities_of_def
  by (induction embeddings arbitrary: sims) (auto split: sum.splits)

lemma best_of_label:
  assumes "best_of v cat = Some b"
  shows "sim_label b \<in> le_label ` set (ce_embeddings cat)"
proof -
  from assms obtain sims where sims: "similarities_of v (ce_embeddings cat) = Inr sims"
    and best: "bestMatch_of sims = Inr b"
    by (auto simp: best_of_def split: sum.splits)
  from best have "sims \<noteq> []"
    by (auto simp: bestMatch_of_def reduce1_def)
  from bestMatch_of_first_max [OF this] best have "b \<in> set sims"
    by auto
  then have "sim_label b \<in> set (map sim_label sims)"
    by simp
  then show ?thesis
    using similarities_of_labels [OF sims] by simp
qed

lemma unique_category:
  assumes "inj_on ce_category (set cats)" and "c \<in> set cats" and "ce_category c = name"
  shows "(\<exists>cat \<in> set cats. ce_category cat = name \<and> P cat) \<longleftrightarrow> P c"
proof
  assume "\<exists>cat \<in> set cats. ce_category cat = name \<and> P cat"
  then obtain cat where cat: "cat \<in> set cats" "ce_category cat = name" "P cat"
    by blast
  have "ce_category cat = ce_category c"
    using cat(2) assms(3) by simp
  with assms(1) have "cat = c"
    using cat(1) assms(2) by (rule inj_onD)
  with cat(3) show "P c"
    by simp
next
  assume "P c"
  with assms(2,3) show "\<exists>cat \<in> set cats. ce_category cat = name \<and> P cat"
    by blast
qed

lemma Min_with_one:
  fixes S :: "real set"
  assumes "finite S" and "S \<noteq> {}"
  shows "Min (insert 1 S) < 0.65 \<longleftrightarrow> Min S < 0.65"
proof -
  have "Min (insert 1 S) = min 1 (Min S)"
    using assms by (rule Min_insert)
  then show ?thesis
    by (simp only: min_def) auto
qed

text \<open>
  Claim C4. For every item that the single-item path classifies against anchors built
  from the label definitions, \<open>needsRefinement\<close> holds if and only if the lowest
  confidence across the five categories is below 0.65, or the raw urgency label is
  \<open>critical\<close>, or the two highest polarity scores differ by less than 0.15; and the reason
  is the first of these conditions that holds, in that order, and is absent when none
  holds. In particular a lowest confidence of 0.40 gives \<open>needsRefinement\<close> with the reason
  \<open>low_confidence\<close>, whatever the other two conditions.
\<close>

theorem refinement_decision:
  assumes "precomputeLabelEmbeddings anchors_ai calls = (Inr labelEmbeddings, calls')"
    and "classifyFeedback feedbackText fid labelEmbeddings ai = Inr result"
  shows "\<exists>data polarity sims.
           ai feedbackText = Inr data
           \<and> polarity \<in> set labelEmbeddings \<and> ce_category polarity = ''polarity''
           \<and> similarities_of (feedbackEmbedding_of data) (ce_embeddings polarity) = Inr sims
           \<and> (needsRefinement result \<longleftrightarrow>
                 lowest_confidence (classifications result) < 0.65
                 \<or> map_option cr_label (classifications result ''urgency'') = Some ''critical''
                 \<or> top_two_gap (map sim_score sims) < 0.15)
           \<and> refinementReason result =
               (if lowest_confidence (classifications result) < 0.65 then Some ''low_confidence''
                else if map_option cr_label (classifications result ''urgency'') = Some ''critical''
                  then Some ''critical_urgency''
                else if top_two_gap (map sim_score sims) < 0.15 then Some ''mixed_sentiment''
                else None)
           \<and> (lowest_confidence (classifications result) = 0.40 \<longrightarrow>
                 needsRefinement result \<and> refinementReason result = Some ''low_confidence'')"
proof -
  let ?st0 = "\<lparr>rs_classifications = Map.empty, lowestConfidence = 1.0,
               hasCriticalUrgency = False, hasMixedSentiment = False\<rparr>"
  from assms(2) obtain data where data: "ai feedbackText = Inr data"
    by (cases "ai feedbackText") (simp_all add: classifyFeedback_def)
  with assms(2) obtain st where
    loop: "classifyFeedback_loop (feedbackEmbedding_of data) labelEmbeddings ?st0 = Inr st"
    by (cases "classifyFeedback_loop (feedbackEmbedding_of data) labelEmbeddings ?st0")
       (simp_all add: classifyFeedback_def)
  have "Inr result = classifyFeedback feedbackText fid labelEmbeddings ai"
    using assms(2) by simp
  also have "\<dots> = Inr \<lparr>feedbackId = fid,
      classifications = rs_classifications st,
      needsRefinement =
        (lowestConfidence st < 0.65 \<or> hasCriticalUrgency st \<or> hasMixedSentiment st),
      refinementReason =
        (if lowestConfidence st < 0.65 \<or> hasCriticalUrgency st \<or> hasMixedSentiment st then
           if lowestConfidence st < 0.65 then Some ''low_confidence''
           else if hasCriticalUrgency st then Some ''critical_urgency''
           else if hasMixedSentiment st then Some ''mixed_sentiment''
           else None
         else None)\<rparr>"
    unfolding classifyFeedback_def by (simp only: data loop sum.case Let_def)
  finally have result_eq: "result = \<lparr>feedbackId = fid,
      classifications = rs_classifications st,
      needsRefinement =
        (lowestConfidence st < 0.65 \<or> hasCriticalUrgency st \<or> hasMixedSentiment st),
      refinementReason =
        (if lowestConfidence st < 0.65 \<or> hasCriticalUrgency st \<or> hasMixedSentiment st then
           if lowestConfidence st < 0.65 then Some ''low_confidence''
           else if hasCriticalUrgency st then Some ''critical_urgency''
           else if hasMixedSentiment st then Some ''mixed_sentiment''
           else None
         else None)\<rparr>"
    by simp
  have result: "classifications result = rs_classifications st"
      "needsRefinement result \<longleftrightarrow>
         lowestConfidence st < 0.65 \<or> hasCriticalUrgency st \<or> hasMixedSentiment st"
      "refinementReason result =
         (if lowestConfidence st < 0.65 then Some ''low_confidence''
          else if hasCriticalUrgency st then Some ''critical_urgency''
          else if hasMixedSentiment st then Some ''mixed_sentiment''
          else None)"
    unfolding result_eq by simp_all
  let ?v = "feedbackEmbedding_of data"
  let ?score = "\<lambda>cat. sim_score (the (best_of ?v cat))"
  note names = precompute_categories(1) [OF assms(1)]
  have names5: "category_names = [''products'', ''polarity'', ''urgency'', ''feedbackType'', ''churnRisk'']"
    by (simp add: category_names_def LABEL_DEFINITIONS_def)
  have distinct: "distinct (map ce_category labelEmbeddings)"
    by (simp add: names names5)
  have inj: "inj_on ce_category (set labelEmbeddings)"
    using distinct by (simp add: distinct_map)
  from classifyFeedback_loop_spec [OF loop] distinct
  have best: "\<forall>cat \<in> set labelEmbeddings. best_of ?v cat \<noteq> None"
    and low: "lowestConfidence st = Min (insert 1 (?score ` set labelEmbeddings))"
    and crit: "hasCriticalUrgency st \<longleftrightarrow>
        (\<exists>cat \<in> set labelEmbeddings. ce_category cat = ''urgency''
           \<and> startsWith (sim_label (the (best_of ?v cat))) ''critical'')"
    and mixed: "hasMixedSentiment st \<longleftrightarrow>
        (\<exists>cat \<in> set labelEmbeddings. ce_category cat = ''polarity'' \<and> mixed_of ?v cat)"
    and stored: "\<forall>cat \<in> set labelEmbeddings.
        rs_classifications st (ce_category cat) =
          Some \<lparr>cr_category = ce_category cat,
                cr_label = extractLabelName (sim_label (the (best_of ?v cat))),
                cr_confidence = ?score cat\<rparr>"
    by simp_all
  \<comment> \<open>(a) the lowest confidence\<close>
  have "map (\<lambda>name. cr_confidence (the (rs_classifications st name))) category_names
          = map ?score labelEmbeddings"
    unfolding names [symmetric] using stored by simp
  then have lc: "lowest_confidence (rs_classifications st) = Min (?score ` set labelEmbeddings)"
    by (simp add: lowest_confidence_def)
  have "labelEmbeddings \<noteq> []"
    using names names5 by auto
  then have a: "lowestConfidence st < 0.65 \<longleftrightarrow> lowest_confidence (rs_classifications st) < 0.65"
    unfolding low lc by (intro Min_with_one) simp_all
  \<comment> \<open>(b) the raw urgency label\<close>
  have "''urgency'' \<in> set (map ce_category labelEmbeddings)"
    by (simp add: names names5)
  then obtain urg where urg: "urg \<in> set labelEmbeddings" "ce_category urg = ''urgency''"
    by auto
  obtain b where b: "best_of ?v urg = Some b"
    using best urg(1) by auto
  from best_of_label [OF b] obtain e where e: "e \<in> set (ce_embeddings urg)" "sim_label b = le_label e"
    by (rule imageE)
  have "\<forall>e \<in> set (ce_embeddings urg). le_label e \<in> set all_label_texts"
    using precompute_labels [OF assms(1) urg(1)] by (rule conjunct2)
  then have "le_label e \<in> set all_label_texts"
    using e(1) by (rule bspec)
  then have "sim_label b \<in> set all_label_texts"
    by (simp only: e(2))
  with label_texts_critical
  have starts: "startsWith (sim_label b) ''critical'' \<longleftrightarrow> extractLabelName (sim_label b) = ''critical''"
    by (rule bspec)
  have "rs_classifications st (ce_category urg) =
      Some \<lparr>cr_category = ce_category urg,
            cr_label = extractLabelName (sim_label (the (best_of ?v urg))),
            cr_confidence = ?score urg\<rparr>"
    using stored urg(1) by (rule bspec)
  then have label: "map_option cr_label (rs_classifications st ''urgency'')
      = Some (extractLabelName (sim_label b))"
    by (simp add: urg(2) b)
  have "hasCriticalUrgency st \<longleftrightarrow> startsWith (sim_label (the (best_of ?v urg))) ''critical''"
    unfolding crit using inj urg by (rule unique_category)
  then have hc: "hasCriticalUrgency st \<longleftrightarrow> startsWith (sim_label b) ''critical''"
    by (simp only: b option.sel)
  have bb: "hasCriticalUrgency st \<longleftrightarrow>
      map_option cr_label (rs_classifications st ''urgency'') = Some ''critical''"
    by (simp only: label hc starts option.inject)
  \<comment> \<open>(c) the two highest polarity scores\<close>
  have "''polarity'' \<in> set (map ce_category labelEmbeddings)"
    by (simp add: names names5)
  then obtain pol where pol: "pol \<in> set labelEmbeddings" "ce_category pol = ''polarity''"
    by auto
  have "best_of ?v pol \<noteq> None"
    using best pol(1) by (rule bspec)
  then obtain sims where sims: "similarities_of ?v (ce_embeddings pol) = Inr sims"
    by (cases "similarities_of ?v (ce_embeddings pol)") (simp_all add: best_of_def)
  have "length sims = length (ce_embeddings pol)"
    using similarities_of_labels [OF sims] by (metis length_map)
  then have "2 \<le> length sims"
    using precompute_categories(2) [OF assms(1)] pol by simp
  from mixed_of_gap [OF sims this]
  have gap: "mixed_of ?v pol \<longleftrightarrow> top_two_gap (map sim_score sims) < 0.15" .
  have "hasMixedSentiment st \<longleftrightarrow> mixed_of ?v pol"
    unfolding mixed using inj pol by (rule unique_category)
  with gap have c: "hasMixedSentiment st \<longleftrightarrow> top_two_gap (map sim_score sims) < 0.15"
    by simp
  have decision: "needsRefinement result \<longleftrightarrow>
      lowest_confidence (classifications result) < 0.65
      \<or> map_option cr_label (classifications result ''urgency'') = Some ''critical''
      \<or> top_two_gap (map sim_score sims) < 0.15"
    by (simp only: result a bb c)
  have reason: "refinementReason result =
      (if lowest_confidence (classifications result) < 0.65 then Some ''low_confidence''
       else if map_option cr_label (classifications result ''urgency'') = Some ''critical''
         then Some ''critical_urgency''
       else if top_two_gap (map sim_score sims) < 0.15 then Some ''mixed_sentiment''
       else None)"
    by (simp only: result a bb c)
  have example: "lowest_confidence (classifications result) = 0.40 \<longrightarrow>
      needsRefinement result \<and> refinementReason result = Some ''low_confidence''"
  proof
    assume "lowest_confidence (classifications result) = 0.40"
    then have "lowest_confidence (classifications result) < 0.65"
      by simp
    then show "needsRefinement result \<and> refinementReason result = Some ''low_confidence''"
      using decision reason by simp
  qed
  show ?thesis
  proof (intro exI conjI)
    show "ai feedbackText = Inr data" by (rule data)
    show "pol \<in> set labelEmbeddings" "ce_category pol = ''polarity''" by (rule pol)+
    show "similarities_of (feedbackEmbedding_of data) (ce_embeddings pol) = Inr sims" by (rule sims)
  qed (rule decision reason example)+
qed

lemma example_single_run:
  "classifyFeedback ''site is down'' 11 example_anchors example_single_ai =
     Inr \<lparr>feedbackId = 11, classifications = example_classification,
          needsRefinement = True, refinementReason = Some ''low_confidence''\<rparr>"
  by (simp add: classifyFeedback_def example_single_ai_def example_anchors_def
      LABEL_DEFINITIONS_def similarities_of_def cosineSimilarity_example bestMatch_of_def
      reduce1_def extractLabelName_def startsWith_def sort_by_score_desc_def slice_def
      example_classification_def Let_def)

theorem refinement_decision_witness:
  "needsRefinement (projr (classifyFeedback ''site is down'' 11 example_anchors example_single_ai))
   \<and> refinementReason (projr (classifyFeedback ''site is down'' 11 example_anchors example_single_ai))
       = Some ''low_confidence''
   \<and> lowest_confidence example_classification = 1 / 2
   \<and> map_option cr_label (example_classification ''urgency'') = Some ''critical''"
proof -
  let ?result = "\<lparr>feedbackId = 11, classifications = example_classification,
      needsRefinement = True, refinementReason = Some ''low_confidence''\<rparr>"
  have lowest: "lowest_confidence example_classification = 1 / 2"
    by (simp add: lowest_confidence_def category_names_def LABEL_DEFINITIONS_def
        example_classification_def)
  have urgent: "map_option cr_label (example_classification ''urgency'') = Some ''critical''"
    by (simp add: example_classification_def)
  from refinement_decision [OF precompute_example example_single_run] show ?thesis
  proof (elim exE conjE)
    fix sims
    assume "needsRefinement ?result \<longleftrightarrow>
       lowest_confidence (classifications ?result) < 0.65
       \<or> map_option cr_label (classifications ?result ''urgency'') = Some ''critical''
       \<or> top_two_gap (map sim_score sims) < 0.15"
      and "refinementReason ?result =
       (if lowest_confidence (classifications ?result) < 0.65 then Some ''low_confidence''
        else if map_option cr_label (classifications ?result ''urgency'') = Some ''critical''
          then Some ''critical_urgency''
        else if top_two_gap (map sim_score sims) < 0.15 then Some ''mixed_sentiment''
        else None)"
    then have "needsRefinement ?result \<and> refinementReason ?result = Some ''low_confidence''"
      using lowest by simp
    then show ?thesis
      using lowest urgent by (simp add: example_single_run)
  qed
qed

section \<open>Properties of the stored classification\<close>









end
